theory Spec2Isabelle
  imports Complex_Main "HOL-Library.AList" "HOL-Library.Sublist"
begin

section \<open>Python values and exceptions\<close>

text \<open>
  The scraper is Python. Everything it catches is an exception, so every call that can
  raise returns a sum with the exception on the left.
\<close>

datatype exn =
    NoSuchElementException
  | StaleElementReferenceException
  | WebDriverException
  | JSONDecodeError
  | TypeError
  | AttributeError
  | IndexError
  | RecursionError

text \<open>
  The values held by \<open>job_data\<close>, by \<open>structured_data\<close> and by the result of
  \<open>json.loads\<close>: \<open>None\<close>, booleans, numbers, strings, lists and dictionaries. A
  dictionary keeps its insertion order, so it is an association list, read with
  \<open>map_of\<close> and written with \<open>AList.update\<close> (an existing key keeps its place, a new
  key goes to the end).
\<close>

datatype json =
    JNull
  | JBool bool
  | JInt int
  | JFloat real
  | JStr string
  | JList "json list"
  | JDict "(string \<times> json) list"

type_synonym dict = "(string \<times> json) list"

text \<open>Truth value testing, as \<open>if value\<close> and \<open>not value\<close> do it.\<close>

fun truthy :: "json \<Rightarrow> bool" where
  "truthy JNull = False"
| "truthy (JBool b) = b"
| "truthy (JInt i) = (i \<noteq> 0)"
| "truthy (JFloat r) = (r \<noteq> 0)"
| "truthy (JStr s) = (s \<noteq> [])"
| "truthy (JList xs) = (xs \<noteq> [])"
| "truthy (JDict kvs) = (kvs \<noteq> [])"

text \<open>\<open>d.get(key, default)\<close> on a dictionary.\<close>

definition dict_get :: "dict \<Rightarrow> string \<Rightarrow> json \<Rightarrow> json" where
  "dict_get d k dflt = (case map_of d k of None \<Rightarrow> dflt | Some v \<Rightarrow> v)"

text \<open>
  \<open>obj.get(key, default)\<close> on any value: only a dictionary has the method, every other
  value raises \<open>AttributeError\<close>.
\<close>

definition attr_get :: "json \<Rightarrow> string \<Rightarrow> json \<Rightarrow> exn + json" where
  "attr_get obj k dflt =
     (case obj of JDict d \<Rightarrow> Inr (dict_get d k dflt) | _ \<Rightarrow> Inl AttributeError)"

text \<open>A function that returns \<open>str\<close> or \<open>None\<close>, stored into a dictionary.\<close>

definition of_opt :: "string option \<Rightarrow> json" where
  "of_opt r = (case r of None \<Rightarrow> JNull | Some s \<Rightarrow> JStr s)"

section \<open>Strings\<close>

text \<open>
  A Python string is modelled as a \<open>string\<close> whose characters are the code points below
  256, so \<open>length\<close> counts what \<open>len\<close> counts. \<open>isspace\<close> holds for the code points
  below 256 that \<open>str.strip()\<close> removes.
\<close>

definition isspace :: "char \<Rightarrow> bool" where
  "isspace c \<longleftrightarrow> c \<in> set [CHR 0x09, CHR 0x0A, CHR 0x0B, CHR 0x0C, CHR 0x0D,
     CHR 0x1C, CHR 0x1D, CHR 0x1E, CHR 0x1F, CHR 0x20, CHR 0x85, CHR 0xA0]"

definition strip :: "string \<Rightarrow> string" where
  "strip s = rev (dropWhile isspace (rev (dropWhile isspace s)))"

text \<open>\<open>s.strip(chars)\<close>: removes leading and trailing characters that occur in \<open>chars\<close>.\<close>

definition strip_chars :: "string \<Rightarrow> string \<Rightarrow> string" where
  "strip_chars chars s =
     rev (dropWhile (\<lambda>c. c \<in> set chars) (rev (dropWhile (\<lambda>c. c \<in> set chars) s)))"

text \<open>\<open>str.lower()\<close> on the code points below 256.\<close>

definition lower_char :: "char \<Rightarrow> char" where
  "lower_char c =
     (let n = (of_char c :: nat)
      in if (65 \<le> n \<and> n \<le> 90) \<or> (192 \<le> n \<and> n \<le> 222 \<and> n \<noteq> 215)
         then char_of (n + 32) else c)"

definition lower :: "string \<Rightarrow> string" where
  "lower s = map lower_char s"

text \<open>\<open>sub in s\<close> on strings: \<open>sub\<close> occurs in \<open>s\<close> as a contiguous run.\<close>

fun py_in :: "string \<Rightarrow> string \<Rightarrow> bool" where
  "py_in sub [] = (sub = [])"
| "py_in sub (c # cs) = (prefix sub (c # cs) \<or> py_in sub cs)"

section \<open>The rendered page: driver and elements\<close>

text \<open>
  Selenium is not part of the repository, so the driver is a parameter: whatever
  \<open>find_element\<close> and \<open>find_elements\<close> answer for a locator, an element list or an
  exception. An element has its \<open>text\<close>, which may raise as well, and its own
  \<open>find_elements\<close>.
\<close>

datatype By = ID | XPATH | TAG_NAME | CSS_SELECTOR

type_synonym locator = "By \<times> string"

datatype element =
  Element (elem_text: "exn + string") (elem_find_elements: "locator \<Rightarrow> exn + element list")

record driver =
  find_element :: "locator \<Rightarrow> exn + element"
  find_elements :: "locator \<Rightarrow> exn + element list"

section \<open>Title extractor\<close>

definition title_selectors :: "locator list" where
  "title_selectors =
     [(CSS_SELECTOR, ''h1.iCIMS_JobsTable h2''),
      (CSS_SELECTOR, ''.iCIMS_Header''),
      (CSS_SELECTOR, ''h1''),
      (CSS_SELECTOR, ''h2.iCIMS_InfoMsg_Job''),
      (XPATH, ''//div[@class='' @ [CHR 0x27] @ ''iCIMS_JobsTable'' @ [CHR 0x27] @ '']//h2'')]"

text \<open>
  The loop over the selectors. An exception from \<open>find_element\<close> or from \<open>text\<close> is
  caught and the loop goes on with the next selector; so does an element whose stripped
  text is empty. A web element is always true in a condition. The source reads
  \<open>element.text\<close> twice, for the test and for the result; the page does not change
  during a run, so the model reads it once.
\<close>

fun extract_job_title_loop :: "driver \<Rightarrow> locator list \<Rightarrow> string option" where
  "extract_job_title_loop d [] = None"
| "extract_job_title_loop d (sel # sels) =
     (case find_element d sel of
        Inl e \<Rightarrow> extract_job_title_loop d sels
      | Inr element \<Rightarrow>
          (case elem_text element of
             Inl e \<Rightarrow> extract_job_title_loop d sels
           | Inr t \<Rightarrow>
               if strip t \<noteq> [] then Some (strip t)
               else extract_job_title_loop d sels))"

definition extract_job_title :: "driver \<Rightarrow> string option" where
  "extract_job_title d = extract_job_title_loop d title_selectors"

section \<open>Location extractor\<close>

text \<open>
  The loop over the \<open>dd\<close> elements, inside one \<open>try\<close>: an exception ends the scan and
  the function returns \<open>None\<close>. The test is \<open>',' in text or 'Remote' in text.lower()\<close>.
\<close>

fun extract_location_loop :: "element list \<Rightarrow> exn + string option" where
  "extract_location_loop [] = Inr None"
| "extract_location_loop (elem # elems) =
     (case elem_text elem of
        Inl e \<Rightarrow> Inl e
      | Inr t \<Rightarrow>
          (let text = strip t
           in if py_in '','' text \<or> py_in ''Remote'' (lower text) then Inr (Some text)
              else extract_location_loop elems))"

definition extract_location :: "driver \<Rightarrow> string option" where
  "extract_location d =
     (case find_elements d (CSS_SELECTOR, ''dd'') of
        Inl e \<Rightarrow> None
      | Inr location_elements \<Rightarrow>
          (case extract_location_loop location_elements of
             Inl e \<Rightarrow> None
           | Inr r \<Rightarrow> r))"

section \<open>Key-value (definition list) extractor\<close>

text \<open>
  \<open>additional_info\<close> is filled in place inside one \<open>try\<close>, and returned after it. Each
  loop therefore returns the dictionary as it stands together with the exception that
  ended it, if any. \<open>zip\<close> stops at the shorter list; the two texts of a pair are read
  when the pair is reached, the label first.
\<close>

type_synonym info = "(string \<times> string) list"

fun extract_definition_pairs :: "(element \<times> element) list \<Rightarrow> info \<Rightarrow> info \<times> exn option" where
  "extract_definition_pairs [] additional_info = (additional_info, None)"
| "extract_definition_pairs ((dt, dd) # pairs) additional_info =
     (case elem_text dt of
        Inl e \<Rightarrow> (additional_info, Some e)
      | Inr kt \<Rightarrow>
          (case elem_text dd of
             Inl e \<Rightarrow> (additional_info, Some e)
           | Inr vt \<Rightarrow>
               (let key = strip kt; value = strip vt
                in extract_definition_pairs pairs
                     (if key \<noteq> [] \<and> value \<noteq> [] then AList.update key value additional_info
                      else additional_info))))"

fun extract_definition_dls :: "element list \<Rightarrow> info \<Rightarrow> info \<times> exn option" where
  "extract_definition_dls [] additional_info = (additional_info, None)"
| "extract_definition_dls (dl # dls) additional_info =
     (case elem_find_elements dl (TAG_NAME, ''dt'') of
        Inl e \<Rightarrow> (additional_info, Some e)
      | Inr dts \<Rightarrow>
          (case elem_find_elements dl (TAG_NAME, ''dd'') of
             Inl e \<Rightarrow> (additional_info, Some e)
           | Inr dds \<Rightarrow>
               (case extract_definition_pairs (zip dts dds) additional_info of
                  (additional_info', Some e) \<Rightarrow> (additional_info', Some e)
                | (additional_info', None) \<Rightarrow> extract_definition_dls dls additional_info')))"

definition extract_definition_lists :: "driver \<Rightarrow> info" where
  "extract_definition_lists d =
     (case find_elements d (TAG_NAME, ''dl'') of
        Inl e \<Rightarrow> []
      | Inr dls \<Rightarrow> fst (extract_definition_dls dls []))"

section \<open>Description extractor\<close>

definition desc_selectors :: "string list" where
  "desc_selectors =
     [''.iCIMS_InfoMsg.iCIMS_InfoField_Job'',
      ''.iCIMS_JobContent'',
      ''div[class*='' @ [CHR 0x27] @ ''JobDescription'' @ [CHR 0x27] @ '']'',
      ''div.iCIMS_Expandable_Container'']"

text \<open>
  The inner loop over the elements of one selector: the first element whose stripped text
  is longer than 100 is returned. An exception leaves the inner loop; the outer loop
  catches it and goes on with the next selector.
\<close>

fun extract_description_elems :: "element list \<Rightarrow> exn + string option" where
  "extract_description_elems [] = Inr None"
| "extract_description_elems (elem # elems) =
     (case elem_text elem of
        Inl e \<Rightarrow> Inl e
      | Inr t \<Rightarrow>
          if length (strip t) > 100 then Inr (Some (strip t))
          else extract_description_elems elems)"

fun extract_description_loop :: "driver \<Rightarrow> string list \<Rightarrow> string option" where
  "extract_description_loop d [] = None"
| "extract_description_loop d (selector # selectors) =
     (case find_elements d (CSS_SELECTOR, selector) of
        Inl e \<Rightarrow> extract_description_loop d selectors
      | Inr elements \<Rightarrow>
          (case extract_description_elems elements of
             Inl e \<Rightarrow> extract_description_loop d selectors
           | Inr None \<Rightarrow> extract_description_loop d selectors
           | Inr (Some text) \<Rightarrow> Some text))"

definition extract_description :: "driver \<Rightarrow> string option" where
  "extract_description d = extract_description_loop d desc_selectors"

section \<open>Structured-data (JSON-LD) extractor\<close>

text \<open>
  The parsed page is the list of its tags in document order; \<open>tag_string\<close> is
  \<open>script.string\<close>, which is \<open>None\<close> for a tag without a single text child.
\<close>

record tag =
  tag_name :: string
  tag_attrs :: "(string \<times> string) list"
  tag_string :: "string option"

type_synonym soup = "tag list"

definition find_all :: "soup \<Rightarrow> string \<Rightarrow> string \<Rightarrow> tag list" where
  "find_all sp name type =
     filter (\<lambda>t. tag_name t = name \<and> map_of (tag_attrs t) ''type'' = Some type) sp"

text \<open>
  \<open>json.loads\<close> and the builtin \<open>str\<close> are Python's, so they are parameters: \<open>loads\<close>
  answers a value or an exception for a string, \<open>builtin_str\<close> renders a value that is
  not a string. \<open>json.loads(None)\<close> raises \<open>TypeError\<close>; \<open>str\<close> of a string is the
  string, and a formatted field \<open>{city}\<close> renders its value the same way.
\<close>

definition json_loads :: "(string \<Rightarrow> exn + json) \<Rightarrow> string option \<Rightarrow> exn + json" where
  "json_loads loads s = (case s of None \<Rightarrow> Inl TypeError | Some t \<Rightarrow> loads t)"

definition py_str :: "(json \<Rightarrow> string) \<Rightarrow> json \<Rightarrow> string" where
  "py_str builtin_str v = (case v of JStr s \<Rightarrow> s | _ \<Rightarrow> builtin_str v)"

text \<open>The location lines of the accepted block.\<close>

definition job_posting_location :: "(json \<Rightarrow> string) \<Rightarrow> dict \<Rightarrow> dict \<Rightarrow> dict \<times> exn option" where
  "job_posting_location builtin_str data structured_data =
     (case dict_get data ''jobLocation'' (JDict []) of
        JDict location_data \<Rightarrow>
          (let address = dict_get location_data ''address'' (JDict [])
           in case attr_get address ''addressLocality'' (JStr []) of
                Inl e \<Rightarrow> (structured_data, Some e)
              | Inr city \<Rightarrow>
                  (case attr_get address ''addressRegion'' (JStr []) of
                     Inl e \<Rightarrow> (structured_data, Some e)
                   | Inr state \<Rightarrow>
                       (AList.update ''location''
                          (JStr (strip_chars '', ''
                             (py_str builtin_str city @ '', '' @ py_str builtin_str state)))
                          structured_data, None)))
      | _ \<Rightarrow> (structured_data, None))"

text \<open>
  The body run for the accepted block. \<open>structured_data\<close> is assigned key by key, so an
  exception leaves the keys assigned before it.
\<close>

definition job_posting_fields :: "(json \<Rightarrow> string) \<Rightarrow> dict \<Rightarrow> dict \<Rightarrow> dict \<times> exn option" where
  "job_posting_fields builtin_str data structured_data =
     (let sd1 = AList.update ''title'' (dict_get data ''title'' JNull) structured_data
      in case attr_get (dict_get data ''hiringOrganization'' (JDict [])) ''name'' JNull of
           Inl e \<Rightarrow> (sd1, Some e)
         | Inr company \<Rightarrow>
             (let sd2 = AList.update ''company'' company sd1;
                  sd3 = AList.update ''description'' (dict_get data ''description'' JNull) sd2;
                  sd4 = AList.update ''posted_date'' (dict_get data ''datePosted'' JNull) sd3;
                  sd5 = AList.update ''employment_type''
                          (dict_get data ''employmentType'' JNull) sd4
              in case job_posting_location builtin_str data sd5 of
                   (sd6, Some e) \<Rightarrow> (sd6, Some e)
                 | (sd6, None) \<Rightarrow>
                     (let salary_info = dict_get data ''baseSalary'' (JDict [])
                      in (if truthy salary_info
                          then AList.update ''salary''
                                 (JStr (py_str builtin_str salary_info)) sd6
                          else sd6, None))))"

text \<open>
  The loop over the script tags. Only \<open>JSONDecodeError\<close> is caught inside the loop
  (\<open>continue\<close>); any other exception leaves the loop for the outer handler. The accepted
  block ends the loop (\<open>break\<close>).
\<close>

fun extract_json_ld_loop ::
  "(string \<Rightarrow> exn + json) \<Rightarrow> (json \<Rightarrow> string) \<Rightarrow> tag list \<Rightarrow> dict \<Rightarrow> dict \<times> exn option" where
  "extract_json_ld_loop loads builtin_str [] structured_data = (structured_data, None)"
| "extract_json_ld_loop loads builtin_str (script # scripts) structured_data =
     (case json_loads loads (tag_string script) of
        Inl e \<Rightarrow>
          if e = JSONDecodeError
          then extract_json_ld_loop loads builtin_str scripts structured_data
          else (structured_data, Some e)
      | Inr data \<Rightarrow>
          (case data of
             JDict d \<Rightarrow>
               if dict_get d ''@type'' JNull = JStr ''JobPosting''
               then job_posting_fields builtin_str d structured_data
               else extract_json_ld_loop loads builtin_str scripts structured_data
           | _ \<Rightarrow> extract_json_ld_loop loads builtin_str scripts structured_data))"

definition extract_json_ld :: "(string \<Rightarrow> exn + json) \<Rightarrow> (json \<Rightarrow> string) \<Rightarrow> soup \<Rightarrow> dict" where
  "extract_json_ld loads builtin_str sp =
     fst (extract_json_ld_loop loads builtin_str
            (find_all sp ''script'' ''application/ld+json'') [])"

section \<open>Record assembler\<close>

text \<open>
  \<open>s.split(sep)\<close> for a non-empty separator: the pieces between the leftmost,
  non-overlapping occurrences of \<open>sep\<close>. Both separators of the source are literals.
\<close>

function split_from :: "string \<Rightarrow> string \<Rightarrow> string \<Rightarrow> string list" where
  "split_from sep cur [] = [cur]"
| "split_from sep cur (c # cs) =
     (if sep \<noteq> [] \<and> prefix sep (c # cs)
      then cur # split_from sep [] (drop (length sep) (c # cs))
      else split_from sep (cur @ [c]) cs)"
  by pat_completeness auto
termination
  by (relation "measure (\<lambda>(sep, cur, s). length s)") auto

definition split :: "string \<Rightarrow> string \<Rightarrow> string list" where
  "split sep s = split_from sep [] s"

text \<open>\<open>xs[i]\<close> for an index that is not negative.\<close>

definition index :: "'a list \<Rightarrow> nat \<Rightarrow> exn + 'a" where
  "index xs i = (if i < length xs then Inr (xs ! i) else Inl IndexError)"

text \<open>
  The job id lines: \<open>Inr None\<close> when the test fails and \<open>job_id\<close> is left as it is,
  \<open>Inr (Some s)\<close> when \<open>s\<close> is assigned, \<open>Inl\<close> when an index is out of range.
\<close>

definition job_id_from_url :: "string \<Rightarrow> exn + string option" where
  "job_id_from_url url =
     (if py_in ''/jobs/'' url
      then (case index (split ''/jobs/'' url) 1 of
              Inl e \<Rightarrow> Inl e
            | Inr rest \<Rightarrow>
                (case index (split ''/'' rest) 0 of
                   Inl e \<Rightarrow> Inl e
                 | Inr job_id \<Rightarrow> Inr (Some job_id)))
      else Inr None)"

definition init_job_data :: "string \<Rightarrow> string \<Rightarrow> dict" where
  "init_job_data url now =
     [(''url'', JStr url),
      (''scrape_timestamp'', JStr now),
      (''job_id'', JNull),
      (''job_title'', JNull),
      (''company'', JNull),
      (''location'', JNull),
      (''description'', JNull),
      (''posted_date'', JNull),
      (''employment_type'', JNull),
      (''additional_info'', JDict []),
      (''salary'', JNull)]"

text \<open>
  The merge loop over \<open>json_ld_data.items()\<close>:
  \<open>if value and not job_data.get(key): job_data[key] = value\<close>.
\<close>

fun merge_items :: "dict \<Rightarrow> dict \<Rightarrow> dict" where
  "merge_items [] job_data = job_data"
| "merge_items ((key, value) # items) job_data =
     merge_items items
       (if truthy value \<and> \<not> truthy (dict_get job_data key JNull)
        then AList.update key value job_data else job_data)"

definition merge_json_ld :: "dict \<Rightarrow> dict \<Rightarrow> dict" where
  "merge_json_ld json_ld_data job_data =
     (if truthy (JDict json_ld_data) then merge_items json_ld_data job_data else job_data)"

text \<open>The backup of the page text, inside a bare \<open>try\<close>: any exception is passed over.\<close>

definition full_page_text :: "driver \<Rightarrow> dict \<Rightarrow> dict" where
  "full_page_text d job_data =
     (case find_element d (TAG_NAME, ''body'') of
        Inl e \<Rightarrow> job_data
      | Inr body \<Rightarrow>
          (case elem_text body of
             Inl e \<Rightarrow> job_data
           | Inr t \<Rightarrow> AList.update ''full_page_text'' (JStr t) job_data))"

text \<open>
  What the run gets from outside: how \<open>setup_chrome_driver\<close> ended, how opening the page
  and switching to the frame ended, the clock, the driver inside the frame, the parsed
  page source, the two Python functions of the structured-data extractor, and how
  \<open>driver.quit()\<close> ends.
\<close>

record page =
  started :: "exn option"
  opened :: "exn option"
  driver_quit :: "exn option"
  now :: string
  dom :: driver
  page_soup :: "exn + soup"
  loads :: "string \<Rightarrow> exn + json"
  builtin_str :: "json \<Rightarrow> string"

definition info_json :: "info \<Rightarrow> json" where
  "info_json additional_info = JDict (map (\<lambda>(k, v). (k, JStr v)) additional_info)"

text \<open>Step 4 of the run, from the initial record to the returned one.\<close>

definition extract_job_details :: "page \<Rightarrow> string \<Rightarrow> exn + dict" where
  "extract_job_details pg url =
     (let job_data = init_job_data url (now pg)
      in case job_id_from_url url of
           Inl e \<Rightarrow> Inl e
         | Inr r \<Rightarrow>
             (let job_data1 =
                    (case r of None \<Rightarrow> job_data
                     | Some job_id \<Rightarrow> AList.update ''job_id'' (JStr job_id) job_data)
              in case page_soup pg of
                   Inl e \<Rightarrow> Inl e
                 | Inr sp \<Rightarrow>
                     (let job_data2 =
                            AList.update ''job_title'' (of_opt (extract_job_title (dom pg)))
                              job_data1;
                          job_data3 =
                            AList.update ''location'' (of_opt (extract_location (dom pg)))
                              job_data2;
                          job_data4 =
                            AList.update ''additional_info''
                              (info_json (extract_definition_lists (dom pg))) job_data3;
                          job_data5 =
                            AList.update ''description'' (of_opt (extract_description (dom pg)))
                              job_data4;
                          json_ld_data = extract_json_ld (loads pg) (builtin_str pg) sp;
                          job_data6 = merge_json_ld json_ld_data job_data5
                      in Inr (full_page_text (dom pg) job_data6))))"

text \<open>
  The body of the \<open>try\<close> once the driver exists: any exception that reaches the handler
  makes the run return \<open>None\<close>.
\<close>

definition scrape_with_driver :: "page \<Rightarrow> string \<Rightarrow> dict option" where
  "scrape_with_driver pg url =
     (case opened pg of
        Some e \<Rightarrow> None
      | None \<Rightarrow>
          (case extract_job_details pg url of
             Inl e \<Rightarrow> None
           | Inr job_data \<Rightarrow> Some job_data))"

text \<open>
  The whole run. When \<open>setup_chrome_driver\<close> raises, \<open>driver\<close> is still \<open>None\<close>: the
  handler returns \<open>None\<close> and the \<open>finally\<close> clause has nothing to close. Otherwise the
  \<open>finally\<close> clause calls \<open>driver.quit()\<close> outside any handler: an exception from it
  replaces the result and leaves the function.
\<close>

definition scrape_icims_job :: "page \<Rightarrow> string \<Rightarrow> exn + dict option" where
  "scrape_icims_job pg url =
     (case started pg of
        Some e \<Rightarrow> Inr None
      | None \<Rightarrow>
          (let result = scrape_with_driver pg url
           in case driver_quit pg of
                Some e \<Rightarrow> Inl e
              | None \<Rightarrow> Inr result))"

section \<open>The wording of the specification\<close>

text \<open>
  The keys of the canonical job record as the specification lists them; the raw
  full-text fallback field is optional and listed apart.
\<close>

definition record_keys :: "string list" where
  "record_keys =
     [''url'', ''scrape_timestamp'', ''job_id'', ''job_title'', ''company'', ''location'',
      ''description'', ''posted_date'', ''employment_type'', ''salary'', ''additional_info'']"

definition fallback_key :: string where
  "fallback_key = ''full_page_text''"

text \<open>
  What the claims say of one lookup strategy. A title locator is rejected when the
  lookup raises (no element), when the text of the element cannot be read, or when the
  text is empty once stripped.
\<close>

definition title_rejects :: "driver \<Rightarrow> locator \<Rightarrow> bool" where
  "title_rejects d l =
     (case find_element d l of
        Inl e \<Rightarrow> True
      | Inr el \<Rightarrow> (case elem_text el of Inl e \<Rightarrow> True | Inr t \<Rightarrow> strip t = []))"

text \<open>
  An element does not qualify as a description when its stripped text has 100 characters
  or fewer. A description locator is rejected when the lookup raises or when every element
  it matches (there may be none) does not qualify.
\<close>

definition desc_unqualified :: "element \<Rightarrow> bool" where
  "desc_unqualified el =
     (case elem_text el of Inl e \<Rightarrow> False | Inr t \<Rightarrow> length (strip t) \<le> 100)"

definition desc_rejects :: "driver \<Rightarrow> string \<Rightarrow> bool" where
  "desc_rejects d sel =
     (case find_elements d (CSS_SELECTOR, sel) of
        Inl e \<Rightarrow> True
      | Inr els \<Rightarrow> list_all desc_unqualified els)"

text \<open>
  The key-value extractor in the words of the specification. A group is given by the raw
  texts of its labels and of its values. Within a group the i-th label is paired with the
  i-th value, up to the shorter list, both trimmed; a pair is retained when both texts are
  not empty; the retained pairs are stored in order, a later pair overwriting the value
  of an equal earlier label.
\<close>

definition spec_pairs :: "(string list \<times> string list) list \<Rightarrow> (string \<times> string) list" where
  "spec_pairs groups =
     concat (map (\<lambda>(labels, values). zip (map strip labels) (map strip values)) groups)"

definition spec_retained :: "(string \<times> string) list \<Rightarrow> (string \<times> string) list" where
  "spec_retained pairs = filter (\<lambda>(k, v). k \<noteq> [] \<and> v \<noteq> []) pairs"

definition spec_mapping :: "(string \<times> string) list \<Rightarrow> info" where
  "spec_mapping pairs = foldl (\<lambda>m (k, v). AList.update k v m) [] pairs"

text \<open>
  A group element reads as a group when both lookups succeed and every label and value
  text can be read; a list of paired elements reads as a list of raw text pairs.
\<close>

definition group_reads :: "element \<Rightarrow> string list \<times> string list \<Rightarrow> bool" where
  "group_reads dl g =
     (case g of (labels, values) \<Rightarrow>
        (case elem_find_elements dl (TAG_NAME, ''dt'') of
           Inl e \<Rightarrow> False
         | Inr dts \<Rightarrow>
             (case elem_find_elements dl (TAG_NAME, ''dd'') of
                Inl e \<Rightarrow> False
              | Inr dds \<Rightarrow>
                  map elem_text dts = map Inr labels \<and> map elem_text dds = map Inr values)))"

definition pairs_read :: "(element \<times> element) list \<Rightarrow> (string \<times> string) list \<Rightarrow> bool" where
  "pairs_read ps kvs \<longleftrightarrow>
     map (\<lambda>(dt, dd). (elem_text dt, elem_text dd)) ps = map (\<lambda>(k, v). (Inr k, Inr v)) kvs"

definition strip_pairs :: "(string \<times> string) list \<Rightarrow> (string \<times> string) list" where
  "strip_pairs kvs = map (\<lambda>(k, v). (strip k, strip v)) kvs"

text \<open>The keys the structured-data extractor assigns.\<close>

definition json_ld_keys :: "string list" where
  "json_ld_keys =
     [''title'', ''company'', ''description'', ''posted_date'', ''employment_type'',
      ''location'', ''salary'']"

text \<open>
  The location as the specification composes it: \<open>"{city}, {region}"\<close>, with a trailing
  \<open>", "\<close> stripped.
\<close>

definition spec_location :: "string \<Rightarrow> string \<Rightarrow> string" where
  "spec_location city region =
     (let s = city @ '', '' @ region
      in if suffix '', '' s then take (length s - 2) s else s)"

text \<open>
  A block that the scan passes over: its text does not parse, or it parses to something
  that is not a dictionary whose \<open>@type\<close> is \<open>JobPosting\<close>.
\<close>

definition block_skipped :: "(string \<Rightarrow> exn + json) \<Rightarrow> tag \<Rightarrow> bool" where
  "block_skipped ld script =
     (case json_loads ld (tag_string script) of
        Inl e \<Rightarrow> e = JSONDecodeError
      | Inr data \<Rightarrow>
          (case data of
             JDict d \<Rightarrow> dict_get d ''@type'' JNull \<noteq> JStr ''JobPosting''
           | _ \<Rightarrow> True))"

text \<open>
  The job id in the words of the specification: the path segment that follows the marker
  segment. The path is the URL up to its query string or fragment, its segments are the
  pieces between slashes, and the marker segment is the first piece that reads \<open>jobs\<close>;
  without it, or without a piece after it, the job id is absent.
\<close>

definition url_path :: "string \<Rightarrow> string" where
  "url_path url = takeWhile (\<lambda>c. c \<noteq> CHR ''?'' \<and> c \<noteq> CHR ''#'') url"

definition spec_job_id :: "string \<Rightarrow> string option" where
  "spec_job_id url =
     (case dropWhile (\<lambda>seg. seg \<noteq> ''jobs'') (split ''/'' (url_path url)) of
        marker # seg # rest \<Rightarrow> Some seg
      | _ \<Rightarrow> None)"

section \<open>Example pages\<close>

text \<open>A page whose only \<open>dd\<close> element reads \<open>Remote - US\<close>.\<close>

definition remote_page :: driver where
  "remote_page =
     \<lparr>find_element = (\<lambda>l. Inl NoSuchElementException),
      find_elements = (\<lambda>l. if l = (CSS_SELECTOR, ''dd'')
                            then Inr [Element (Inr ''Remote - US'') (\<lambda>l. Inr [])]
                            else Inr [])\<rparr>"

text \<open>
  One job-posting block, and a \<open>json.loads\<close> that parses this block and rejects every
  other text.
\<close>

definition posting_text :: string where
  \<open>posting_text = ''{"@type": "JobPosting", "title": "Data Analyst"}''\<close>

definition example_loads :: "string \<Rightarrow> exn + json" where
  "example_loads s =
     (if s = posting_text
      then Inr (JDict [(''@type'', JStr ''JobPosting''), (''title'', JStr ''Data Analyst'')])
      else Inl JSONDecodeError)"

definition ld_script :: "string option \<Rightarrow> tag" where
  "ld_script s =
     \<lparr>tag_name = ''script'', tag_attrs = [(''type'', ''application/ld+json'')],
      tag_string = s\<rparr>"

text \<open>A frame in which no locator matches anything.\<close>

definition bare_dom :: driver where
  "bare_dom =
     \<lparr>find_element = (\<lambda>l. Inl NoSuchElementException), find_elements = (\<lambda>l. Inr [])\<rparr>"

definition posting_page :: page where
  "posting_page =
     \<lparr>started = None, opened = None, driver_quit = None,
      now = ''2025-10-06T12:00:00'', dom = bare_dom,
      page_soup = Inr [ld_script (Some posting_text)],
      loads = example_loads, builtin_str = (\<lambda>v. [])\<rparr>"

definition posting_url :: string where
  "posting_url = ''https://careers-aeieng.icims.com/jobs/5417/engineering-data-analyst/job''"

text \<open>Elements without children, and texts of 100 and of 101 characters.\<close>

definition leaf :: "string \<Rightarrow> element" where
  "leaf t = Element (Inr t) (\<lambda>l. Inr [])"

definition text_100 :: string where
  "text_100 = replicate 100 (CHR ''x'')"

definition long_text :: string where
  "long_text = replicate 101 (CHR ''x'')"

text \<open>
  A page on which the first title selector matches nothing, the second matches a blank
  element and the third matches the title; the first description selector matches
  nothing and the second matches two short elements before a long one.
\<close>

definition fallback_page :: driver where
  "fallback_page =
     \<lparr>find_element =
        (\<lambda>l. if l = (CSS_SELECTOR, ''.iCIMS_Header'') then Inr (leaf ''   '')
             else if l = (CSS_SELECTOR, ''h1'') then Inr (leaf '' Data Analyst '')
             else Inl NoSuchElementException),
      find_elements =
        (\<lambda>l. if l = (CSS_SELECTOR, ''.iCIMS_JobContent'')
             then Inr [leaf ''Apply now'', leaf text_100, leaf long_text]
             else Inr [])\<rparr>"

text \<open>A page on which every selector matches one short element.\<close>

definition short_page :: driver where
  "short_page =
     \<lparr>find_element = (\<lambda>l. Inl NoSuchElementException),
      find_elements = (\<lambda>l. Inr [leaf ''Apply now''])\<rparr>"

text \<open>Pages made of label/value groups, a stale element, and a driver that is down.\<close>

definition dl_elem :: "element list \<Rightarrow> element list \<Rightarrow> element" where
  "dl_elem dts dds =
     Element (Inr [])
       (\<lambda>l. if l = (TAG_NAME, ''dt'') then Inr dts
            else if l = (TAG_NAME, ''dd'') then Inr dds else Inr [])"

definition page_of_dls :: "element list \<Rightarrow> driver" where
  "page_of_dls dls =
     \<lparr>find_element = (\<lambda>l. Inl NoSuchElementException),
      find_elements = (\<lambda>l. if l = (TAG_NAME, ''dl'') then Inr dls else Inr [])\<rparr>"

definition kv_page :: driver where
  "kv_page =
     page_of_dls
       [dl_elem [leaf '' Department '', leaf ''Type'', leaf ''Extra'']
                [leaf ''Engineering'', leaf '' Full-time ''],
        dl_elem [leaf ''Department'', leaf ''  '']
                [leaf ''Data'', leaf ''x'']]"

definition stale :: element where
  "stale = Element (Inl StaleElementReferenceException) (\<lambda>l. Inl StaleElementReferenceException)"

definition failing_pair_page :: driver where
  "failing_pair_page =
     page_of_dls
       [dl_elem [leaf ''Department''] [leaf ''Engineering''],
        dl_elem [leaf ''Type'', leaf ''Level'', leaf ''Shift''] [leaf ''Full-time'', stale, leaf ''Day''],
        dl_elem [leaf ''Never''] [leaf ''Read'']]"

definition failing_group_page :: driver where
  "failing_group_page =
     page_of_dls
       [dl_elem [leaf ''Department''] [leaf ''Engineering''],
        stale,
        dl_elem [leaf ''Never''] [leaf ''Read'']]"

definition down_page :: driver where
  "down_page =
     \<lparr>find_element = (\<lambda>l. Inl WebDriverException),
      find_elements = (\<lambda>l. Inl WebDriverException)\<rparr>"

text \<open>The URL of the source's \<open>main\<close>, and a URL without the marker.\<close>

definition main_url :: string where
  "main_url = ''https://careers-aeieng.icims.com/jobs/5417/engineering-data-analyst/job?mobile=false&width=1920&height=500&bga=true&needsRedirect=false&jan1offset=330&jun1offset=330''"

definition plain_url :: string where
  "plain_url = ''https://careers-aeieng.icims.com/job/5417''"

text \<open>
  Two more job-posting blocks, one with an empty city and one with every field, a
  \<open>json.loads\<close> that parses these two, and a \<open>str\<close> that renders the salary object.
\<close>

definition region_text :: string where
  \<open>region_text = ''{"@type": "JobPosting", "jobLocation": {"address": {"addressLocality": "", "addressRegion": "TX"}}}''\<close>

definition region_data :: dict where
  "region_data =
     [(''@type'', JStr ''JobPosting''),
      (''jobLocation'',
         JDict [(''address'',
            JDict [(''addressLocality'', JStr []), (''addressRegion'', JStr ''TX'')])])]"

definition full_text :: string where
  \<open>full_text = ''{"@type": "JobPosting", "title": "Data Analyst", "hiringOrganization": {"name": "Acme Corp"}, "description": "Analyse data.", "datePosted": "2025-10-01", "employmentType": "FULL_TIME", "jobLocation": {"address": {"addressLocality": "Austin", "addressRegion": "TX"}}, "baseSalary": {"value": 50000}}''\<close>

definition full_data :: dict where
  "full_data =
     [(''@type'', JStr ''JobPosting''),
      (''title'', JStr ''Data Analyst''),
      (''hiringOrganization'', JDict [(''name'', JStr ''Acme Corp'')]),
      (''description'', JStr ''Analyse data.''),
      (''datePosted'', JStr ''2025-10-01''),
      (''employmentType'', JStr ''FULL_TIME''),
      (''jobLocation'',
         JDict [(''address'',
            JDict [(''addressLocality'', JStr ''Austin''), (''addressRegion'', JStr ''TX'')])]),
      (''baseSalary'', JDict [(''value'', JInt 50000)])]"

definition table_loads :: "string \<Rightarrow> exn + json" where
  "table_loads s =
     (if s = region_text then Inr (JDict region_data)
      else if s = full_text then Inr (JDict full_data)
      else Inl JSONDecodeError)"

definition example_str :: "json \<Rightarrow> string" where
  "example_str v =
     (if v = JDict [(''value'', JInt 50000)]
      then ''{'' @ [CHR 0x27] @ ''value'' @ [CHR 0x27] @ '': 50000}'' else [])"

text \<open>
  A URL whose job id segment is followed by the query string, and a URL whose path has no
  marker segment but whose query string contains the marker.
\<close>

definition query_url :: string where
  "query_url = ''https://careers-aeieng.icims.com/jobs/5417?mobile=false''"

definition redirect_url :: string where
  "redirect_url = ''https://careers-aeieng.icims.com/search?next=/jobs/77/a''"

section \<open>Properties\<close>

subsection \<open>Strings\<close>

lemma of_char_lower_char: "(of_char (lower_char c) :: nat) \<noteq> 82"
  unfolding lower_char_def Let_def by auto

lemma lower_char_not_R: "lower_char c \<noteq> CHR ''R''"
proof
  assume "lower_char c = CHR ''R''"
  then have "(of_char (lower_char c) :: nat) = of_char (CHR ''R'')" by simp
  then show False using of_char_lower_char [of c] by simp
qed

lemma py_in_Cons_mem: "py_in (a # sub) s \<Longrightarrow> a \<in> set s"
  by (induction s) auto

text \<open>A lowered text has no capital letter, so it never contains \<open>Remote\<close>.\<close>

lemma remote_never_in_lower: "\<not> py_in ''Remote'' (lower s)"
proof
  assume "py_in ''Remote'' (lower s)"
  then have "CHR ''R'' \<in> set (lower s)" by (rule py_in_Cons_mem)
  then obtain x where "lower_char x = CHR ''R''" by (auto simp: lower_def)
  then show False using lower_char_not_R by blast
qed

subsection \<open>Location extractor\<close>

text \<open>
  C2. The claim lets an element qualify whose trimmed text contains the word "remote" in
  any case, so a page whose only \<open>dd\<close> reads \<open>Remote - US\<close> should yield that text. The
  code looks for \<open>Remote\<close>, with a capital, in the lowered text and so never finds it: on
  that page the extractor returns \<open>None\<close>.
\<close>

theorem extract_location_remote_us: "extract_location remote_page = None"
  by (simp add: extract_location_def remote_page_def remote_never_in_lower strip_def isspace_def)

subsection \<open>Structured-data extractor\<close>

lemma extract_json_ld_posting:
  "extract_json_ld example_loads (\<lambda>v. []) [ld_script (Some posting_text)] =
     [(''title'', JStr ''Data Analyst''), (''company'', JNull), (''description'', JNull),
      (''posted_date'', JNull), (''employment_type'', JNull), (''location'', JStr [])]"
  by (simp add: extract_json_ld_def find_all_def ld_script_def json_loads_def example_loads_def
      dict_get_def job_posting_fields_def job_posting_location_def attr_get_def strip_chars_def
      py_str_def)

lemma posting_url_job_id: "job_id_from_url posting_url = Inr (Some ''5417'')"
  by (simp add: job_id_from_url_def posting_url_def split_def index_def)

lemma posting_page_run:
  "scrape_icims_job posting_page posting_url =
     Inr (Some [(''url'', JStr posting_url),
           (''scrape_timestamp'', JStr ''2025-10-06T12:00:00''),
           (''job_id'', JStr ''5417''), (''job_title'', JNull),
           (''company'', JNull), (''location'', JNull), (''description'', JNull),
           (''posted_date'', JNull), (''employment_type'', JNull),
           (''additional_info'', JDict []), (''salary'', JNull),
           (''title'', JStr ''Data Analyst'')])"
  by (simp add: scrape_icims_job_def scrape_with_driver_def posting_page_def extract_job_details_def posting_url_job_id
      extract_json_ld_posting init_job_data_def merge_json_ld_def dict_get_def
      full_page_text_def bare_dom_def of_opt_def info_json_def extract_job_title_def
      title_selectors_def extract_location_def extract_definition_lists_def
      extract_description_def desc_selectors_def)

text \<open>
  C1. The claim has the structured-data extractor use only keys of the canonical record,
  so that the returned record has no other key. The extractor stores the title of the
  block under \<open>title\<close>, which is not a key of the record (the record's key is
  \<open>job_title\<close>): on a page with one job-posting block the merge adds \<open>title\<close> as a
  twelfth key and \<open>job_title\<close> stays \<open>None\<close>.
\<close>

theorem json_ld_title_key_not_in_record:
  "''title'' \<in> fst ` set (extract_json_ld example_loads (\<lambda>v. []) [ld_script (Some posting_text)])
   \<and> ''title'' \<notin> set (fallback_key # record_keys)
   \<and> scrape_icims_job posting_page posting_url =
       Inr (Some [(''url'', JStr posting_url),
             (''scrape_timestamp'', JStr ''2025-10-06T12:00:00''),
             (''job_id'', JStr ''5417''), (''job_title'', JNull),
             (''company'', JNull), (''location'', JNull), (''description'', JNull),
             (''posted_date'', JNull), (''employment_type'', JNull),
             (''additional_info'', JDict []), (''salary'', JNull),
             (''title'', JStr ''Data Analyst'')])"
proof -
  have keys: "''title'' \<notin> set (fallback_key # record_keys)"
    by (simp add: record_keys_def fallback_key_def)
  show ?thesis using keys posting_page_run by (simp add: extract_json_ld_posting)
qed

text \<open>
  C7. The claim has every malformed block skipped and the scan go on to the next block.
  A block whose text does not parse is skipped, but a script tag without text makes
  \<open>json.loads\<close> raise \<open>TypeError\<close>, which only the outer handler catches: the scan ends
  there and the job-posting block after it is never read.
\<close>

theorem empty_block_ends_scan:
  "extract_json_ld example_loads (\<lambda>v. []) [ld_script None, ld_script (Some posting_text)] = []
   \<and> extract_json_ld example_loads (\<lambda>v. []) [ld_script (Some ''{''), ld_script (Some posting_text)] =
       extract_json_ld example_loads (\<lambda>v. []) [ld_script (Some posting_text)]
   \<and> extract_json_ld example_loads (\<lambda>v. []) [ld_script (Some posting_text)] \<noteq> []"
proof -
  have a: "extract_json_ld example_loads (\<lambda>v. []) [ld_script None, ld_script (Some posting_text)] = []"
    by (simp add: extract_json_ld_def find_all_def ld_script_def json_loads_def)
  have b: "extract_json_ld example_loads (\<lambda>v. [])
             [ld_script (Some ''{''), ld_script (Some posting_text)] =
           extract_json_ld example_loads (\<lambda>v. []) [ld_script (Some posting_text)]"
    by (simp add: extract_json_ld_def find_all_def ld_script_def json_loads_def example_loads_def
        posting_text_def)
  show ?thesis using a b by (simp add: extract_json_ld_posting)
qed


subsection \<open>Merge stage\<close>

lemma dict_get_update:
  "dict_get (AList.update k v d) k' dflt = (if k' = k then v else dict_get d k' dflt)"
  by (simp add: dict_get_def update_conv')

lemma merge_items_keeps:
  "truthy (dict_get job_data k JNull) \<Longrightarrow> map_of (merge_items items job_data) k = map_of job_data k"
proof (induction items arbitrary: job_data)
  case Nil
  then show ?case by simp
next
  case (Cons item items)
  obtain key val where item: "item = (key, val)" by (cases item)
  show ?case
  proof (cases "truthy val \<and> \<not> truthy (dict_get job_data key JNull)")
    case True
    with Cons.prems have "key \<noteq> k" by auto
    then have "truthy (dict_get (AList.update key val job_data) k JNull)"
      using Cons.prems by (simp add: dict_get_update)
    from Cons.IH [OF this] True \<open>key \<noteq> k\<close> show ?thesis
      by (simp add: item update_conv')
  next
    case False
    with Cons.IH [OF Cons.prems] show ?thesis by (auto simp: item)
  qed
qed

lemma merge_items_fills:
  "distinct (map fst items) \<Longrightarrow> \<not> truthy (dict_get job_data k JNull) \<Longrightarrow>
   map_of items k = Some v \<Longrightarrow> truthy v \<Longrightarrow> map_of (merge_items items job_data) k = Some v"
proof (induction items arbitrary: job_data)
  case Nil
  then show ?case by simp
next
  case (Cons item items)
  obtain key val where item: "item = (key, val)" by (cases item)
  show ?case
  proof (cases "key = k")
    case True
    with Cons.prems item have v: "val = v" by simp
    have "truthy (dict_get (AList.update k v job_data) k JNull)"
      using Cons.prems by (simp add: dict_get_update)
    then have "map_of (merge_items items (AList.update k v job_data)) k =
               map_of (AList.update k v job_data) k"
      by (rule merge_items_keeps)
    then show ?thesis using Cons.prems True v by (simp add: item update_conv')
  next
    case False
    let ?job = "if truthy val \<and> \<not> truthy (dict_get job_data key JNull)
                then AList.update key val job_data else job_data"
    have "\<not> truthy (dict_get ?job k JNull)"
      using Cons.prems False by (simp add: dict_get_update)
    moreover have "distinct (map fst items)" "map_of items k = Some v"
      using Cons.prems False by (auto simp: item)
    ultimately have "map_of (merge_items items ?job) k = Some v"
      using Cons.IH Cons.prems by blast
    then show ?thesis by (simp add: item)
  qed
qed

lemma merge_items_changes:
  "map_of (merge_items items job_data) k = map_of job_data k
   \<or> (\<exists>v. (k, v) \<in> set items \<and> truthy v \<and> map_of (merge_items items job_data) k = Some v)"
proof (induction items arbitrary: job_data)
  case Nil
  then show ?case by simp
next
  case (Cons item items)
  obtain key val where item: "item = (key, val)" by (cases item)
  let ?job = "if truthy val \<and> \<not> truthy (dict_get job_data key JNull)
              then AList.update key val job_data else job_data"
  have step: "merge_items (item # items) job_data = merge_items items ?job"
    by (simp add: item)
  from Cons.IH [of ?job] show ?case
  proof
    assume same: "map_of (merge_items items ?job) k = map_of ?job k"
    show ?thesis
    proof (cases "truthy val \<and> \<not> truthy (dict_get job_data key JNull) \<and> key = k")
      case True
      then have "map_of ?job k = Some val" by (auto simp: update_conv')
      with same True show ?thesis unfolding step by (auto simp: item)
    next
      case False
      then have "map_of ?job k = map_of job_data k" by (auto simp: update_conv')
      with same show ?thesis unfolding step by simp
    qed
  next
    assume "\<exists>v. (k, v) \<in> set items \<and> truthy v \<and> map_of (merge_items items ?job) k = Some v"
    then show ?thesis unfolding step by auto
  qed
qed



text \<open>
  C3. The merge assigns a key of the structured-data result into the record only where
  the record's value for the key is absent or empty (\<open>None\<close>, the empty string, an empty
  dictionary: what \<open>not job_data.get(key)\<close> accepts): a key whose record value is not
  empty keeps it; a key whose record value is absent or empty takes the structured value
  when that one is not empty; a value that differs after the merge was absent or empty
  before and is a non-empty structured value for that key; and merging an empty
  structured-data result returns the record as it was.
\<close>

theorem merge_fills_only_gaps:
  "(truthy (dict_get job_data k JNull) \<longrightarrow>
      map_of (merge_json_ld json_ld_data job_data) k = map_of job_data k)
   \<and> (distinct (map fst json_ld_data) \<and> \<not> truthy (dict_get job_data k JNull)
        \<and> map_of json_ld_data k = Some v \<and> truthy v \<longrightarrow>
      map_of (merge_json_ld json_ld_data job_data) k = Some v)
   \<and> (map_of (merge_json_ld json_ld_data job_data) k \<noteq> map_of job_data k \<longrightarrow>
      \<not> truthy (dict_get job_data k JNull)
      \<and> (\<exists>w. (k, w) \<in> set json_ld_data \<and> truthy w
              \<and> map_of (merge_json_ld json_ld_data job_data) k = Some w))
   \<and> merge_json_ld [] job_data = job_data"
proof (intro conjI impI)
  assume "truthy (dict_get job_data k JNull)"
  then show "map_of (merge_json_ld json_ld_data job_data) k = map_of job_data k"
    by (simp add: merge_json_ld_def merge_items_keeps)
next
  assume "distinct (map fst json_ld_data) \<and> \<not> truthy (dict_get job_data k JNull)
        \<and> map_of json_ld_data k = Some v \<and> truthy v"
  then have "map_of (merge_items json_ld_data job_data) k = Some v"
    and "json_ld_data \<noteq> []"
    using merge_items_fills [of json_ld_data job_data k v] by auto
  then show "map_of (merge_json_ld json_ld_data job_data) k = Some v"
    by (simp add: merge_json_ld_def)
next
  assume changed: "map_of (merge_json_ld json_ld_data job_data) k \<noteq> map_of job_data k"
  then show "\<not> truthy (dict_get job_data k JNull)"
    using merge_items_keeps [of job_data k json_ld_data]
    by (auto simp: merge_json_ld_def split: if_splits)
  from changed have ne: "merge_json_ld json_ld_data job_data = merge_items json_ld_data job_data"
    by (cases json_ld_data) (simp_all add: merge_json_ld_def)
  with changed merge_items_changes [of json_ld_data job_data k]
  show "\<exists>w. (k, w) \<in> set json_ld_data \<and> truthy w
              \<and> map_of (merge_json_ld json_ld_data job_data) k = Some w"
    by simp
next
  show "merge_json_ld [] job_data = job_data"
    by (simp add: merge_json_ld_def)
qed



theorem merge_fills_only_gaps_witness:
  "map_of (merge_json_ld [(''location'', JStr ''Remote''), (''company'', JStr ''Acme Corp'')]
             [(''location'', JStr ''Austin, TX''), (''company'', JNull)]) ''location''
     = Some (JStr ''Austin, TX'')
   \<and> map_of (merge_json_ld [(''location'', JStr ''Remote''), (''company'', JStr ''Acme Corp'')]
             [(''location'', JStr ''Austin, TX''), (''company'', JNull)]) ''company''
     = Some (JStr ''Acme Corp'')
   \<and> \<not> truthy (dict_get [(''location'', JStr ''Austin, TX''), (''company'', JNull)] ''company'' JNull)"
proof -
  let ?job = "[(''location'', JStr ''Austin, TX''), (''company'', JNull)]"
  let ?ld = "[(''location'', JStr ''Remote''), (''company'', JStr ''Acme Corp'')]"
  have "truthy (dict_get ?job ''location'' JNull)"
    by (simp add: dict_get_def)
  with merge_fills_only_gaps [of ?job "''location''" ?ld "JStr ''Remote''"]
  have "map_of (merge_json_ld ?ld ?job) ''location'' = map_of ?job ''location''"
    by blast
  then have kept: "map_of (merge_json_ld ?ld ?job) ''location'' = Some (JStr ''Austin, TX'')"
    by simp
  have "distinct (map fst ?ld) \<and> \<not> truthy (dict_get ?job ''company'' JNull)
        \<and> map_of ?ld ''company'' = Some (JStr ''Acme Corp'') \<and> truthy (JStr ''Acme Corp'')"
    by (simp add: dict_get_def)
  with merge_fills_only_gaps [of ?job "''company''" ?ld "JStr ''Acme Corp''"]
  have filled: "map_of (merge_json_ld ?ld ?job) ''company'' = Some (JStr ''Acme Corp'')"
    by blast
  then have changed: "map_of (merge_json_ld ?ld ?job) ''company'' \<noteq> map_of ?job ''company''"
    by simp
  with merge_fills_only_gaps [of ?job "''company''" ?ld "JStr ''Acme Corp''"]
  have "\<not> truthy (dict_get ?job ''company'' JNull)"
    by blast
  with kept filled show ?thesis by blast
qed


subsection \<open>Title and description extractors\<close>

lemma title_loop_skip:
  "\<forall>l\<in>set pre. title_rejects d l \<Longrightarrow>
   extract_job_title_loop d (pre @ ls) = extract_job_title_loop d ls"
  by (induction pre) (auto simp: title_rejects_def split: sum.splits)

lemma title_loop_hit:
  "find_element d l = Inr el \<Longrightarrow> elem_text el = Inr t \<Longrightarrow> strip t \<noteq> [] \<Longrightarrow>
   extract_job_title_loop d (l # ls) = Some (strip t)"
  by simp

lemma title_loop_none_iff:
  "extract_job_title_loop d ls = None \<longleftrightarrow> (\<forall>l\<in>set ls. title_rejects d l)"
  by (induction ls) (auto simp: title_rejects_def split: sum.splits)

lemma desc_elems_skip:
  "\<forall>e\<in>set pre. desc_unqualified e \<Longrightarrow>
   extract_description_elems (pre @ els) = extract_description_elems els"
  by (induction pre) (auto simp: desc_unqualified_def split: sum.splits)

lemma desc_elems_none:
  "list_all desc_unqualified els \<Longrightarrow> extract_description_elems els = Inr None"
  by (induction els) (auto simp: desc_unqualified_def split: sum.splits)

lemma desc_elems_first:
  assumes "j < length els" and "\<forall>e\<in>set (take j els). desc_unqualified e"
    and "elem_text (els ! j) = Inr t" and "length (strip t) > 100"
  shows "extract_description_elems els = Inr (Some (strip t))"
proof -
  have "els = take j els @ els ! j # drop (Suc j) els"
    using assms(1) by (simp add: id_take_nth_drop)
  then have "extract_description_elems els =
             extract_description_elems (els ! j # drop (Suc j) els)"
    using desc_elems_skip [OF assms(2)] by metis
  then show ?thesis using assms(3,4) by simp
qed

lemma desc_loop_skip:
  "\<forall>s\<in>set pre. desc_rejects d s \<Longrightarrow>
   extract_description_loop d (pre @ ss) = extract_description_loop d ss"
  by (induction pre) (auto simp: desc_rejects_def desc_elems_none split: sum.splits)

lemma desc_elems_long:
  "extract_description_elems els = Inr (Some r) \<Longrightarrow> length r > 100"
  by (induction els) (auto split: sum.splits if_splits)

lemma desc_loop_long:
  "extract_description_loop d ss = Some r \<Longrightarrow> length r > 100"
  by (induction ss) (auto split: sum.splits option.splits dest: desc_elems_long)

lemma desc_loop_found:
  assumes "s \<in> set ss" and "find_elements d (CSS_SELECTOR, s) = Inr els"
    and "extract_description_elems els = Inr (Some r)"
  shows "extract_description_loop d ss \<noteq> None"
  using assms(1)
proof (induction ss)
  case Nil
  then show ?case by simp
next
  case (Cons a ss)
  then show ?case using assms(2,3)
    by (auto split: sum.splits option.splits)
qed


lemma strip_replicate_x: "strip (replicate n (CHR ''x'')) = replicate n (CHR ''x'')"
  by (simp add: strip_def isspace_def)

text \<open>
  C4. In the locator lists of the title and of the description extractor, when the first
  \<open>K\<close> locators are rejected (no element, a text that is empty once stripped, or only
  elements that do not qualify) and locator \<open>K + 1\<close> has a qualifying match, the
  extractor returns that match. A lookup that raises is rejected like an empty text. The
  title extractor returns \<open>None\<close> exactly when every locator is rejected; the description
  extractor returns \<open>None\<close> when every locator is rejected, and when it returns \<open>None\<close> no
  locator had a qualifying element after elements that do not qualify.
\<close>

theorem fallback_order:
  "(K < length title_selectors \<and> (\<forall>l\<in>set (take K title_selectors). title_rejects d l)
      \<and> find_element d (title_selectors ! K) = Inr el \<and> elem_text el = Inr t \<and> strip t \<noteq> []
      \<longrightarrow> extract_job_title d = Some (strip t))
   \<and> (extract_job_title d = None \<longleftrightarrow> (\<forall>l\<in>set title_selectors. title_rejects d l))
   \<and> (K' < length desc_selectors \<and> (\<forall>s\<in>set (take K' desc_selectors). desc_rejects d s)
      \<and> find_elements d (CSS_SELECTOR, desc_selectors ! K') = Inr els
      \<and> j < length els \<and> (\<forall>e\<in>set (take j els). desc_unqualified e)
      \<and> elem_text (els ! j) = Inr u \<and> 100 < length (strip u)
      \<longrightarrow> extract_description d = Some (strip u))
   \<and> ((\<forall>s\<in>set desc_selectors. desc_rejects d s) \<longrightarrow> extract_description d = None)
   \<and> (extract_description d = None \<and> s' \<in> set desc_selectors
      \<and> find_elements d (CSS_SELECTOR, s') = Inr els'
      \<and> j' < length els' \<and> (\<forall>e\<in>set (take j' els'). desc_unqualified e)
      \<and> elem_text (els' ! j') = Inr u'
      \<longrightarrow> length (strip u') \<le> 100)"
proof (intro conjI impI)
  assume a: "K < length title_selectors \<and> (\<forall>l\<in>set (take K title_selectors). title_rejects d l)
      \<and> find_element d (title_selectors ! K) = Inr el \<and> elem_text el = Inr t \<and> strip t \<noteq> []"
  then have split: "title_selectors =
      take K title_selectors @ title_selectors ! K # drop (Suc K) title_selectors"
    by (simp add: id_take_nth_drop)
  have "extract_job_title_loop d
          (take K title_selectors @ title_selectors ! K # drop (Suc K) title_selectors) =
        extract_job_title_loop d (title_selectors ! K # drop (Suc K) title_selectors)"
    using a by (intro title_loop_skip) simp
  also have "\<dots> = Some (strip t)"
    using a by (intro title_loop_hit) auto
  finally show "extract_job_title d = Some (strip t)"
    unfolding extract_job_title_def using split by simp
next
  show "extract_job_title d = None \<longleftrightarrow> (\<forall>l\<in>set title_selectors. title_rejects d l)"
    unfolding extract_job_title_def by (rule title_loop_none_iff)
next
  assume a: "K' < length desc_selectors \<and> (\<forall>s\<in>set (take K' desc_selectors). desc_rejects d s)
      \<and> find_elements d (CSS_SELECTOR, desc_selectors ! K') = Inr els
      \<and> j < length els \<and> (\<forall>e\<in>set (take j els). desc_unqualified e)
      \<and> elem_text (els ! j) = Inr u \<and> 100 < length (strip u)"
  then have split: "desc_selectors =
      take K' desc_selectors @ desc_selectors ! K' # drop (Suc K') desc_selectors"
    by (simp add: id_take_nth_drop)
  have first: "extract_description_elems els = Inr (Some (strip u))"
    using a by (intro desc_elems_first) auto
  have "extract_description_loop d
          (take K' desc_selectors @ desc_selectors ! K' # drop (Suc K') desc_selectors) =
        extract_description_loop d (desc_selectors ! K' # drop (Suc K') desc_selectors)"
    using a by (intro desc_loop_skip) simp
  also have "\<dots> = Some (strip u)"
    using a first by simp
  finally show "extract_description d = Some (strip u)"
    unfolding extract_description_def using split by simp
next
  assume "\<forall>s\<in>set desc_selectors. desc_rejects d s"
  then have "extract_description_loop d (desc_selectors @ []) = extract_description_loop d []"
    by (rule desc_loop_skip)
  then show "extract_description d = None"
    by (simp add: extract_description_def)
next
  assume a: "extract_description d = None \<and> s' \<in> set desc_selectors
      \<and> find_elements d (CSS_SELECTOR, s') = Inr els'
      \<and> j' < length els' \<and> (\<forall>e\<in>set (take j' els'). desc_unqualified e)
      \<and> elem_text (els' ! j') = Inr u'"
  show "length (strip u') \<le> 100"
  proof (rule ccontr)
    assume "\<not> length (strip u') \<le> 100"
    then have "extract_description_elems els' = Inr (Some (strip u'))"
      using a by (intro desc_elems_first) auto
    with a have "extract_description_loop d desc_selectors \<noteq> None"
      by (intro desc_loop_found [of s' _ d els']) auto
    with a show False by (simp add: extract_description_def)
  qed
qed


lemma strip_examples:
  "strip ''   '' = []" "strip '' Data Analyst '' = ''Data Analyst''"
  "strip ''Apply now'' = ''Apply now''"
  by (simp_all add: strip_def isspace_def)

theorem fallback_order_witness:
  "extract_job_title fallback_page = Some ''Data Analyst''
   \<and> extract_description fallback_page = Some long_text
   \<and> extract_job_title bare_dom = None
   \<and> extract_description bare_dom = None
   \<and> extract_description short_page = None
   \<and> length (strip ''Apply now'') \<le> 100"
proof -
  have t: "2 < length title_selectors
      \<and> (\<forall>l\<in>set (take 2 title_selectors). title_rejects fallback_page l)
      \<and> find_element fallback_page (title_selectors ! 2) = Inr (leaf '' Data Analyst '')
      \<and> elem_text (leaf '' Data Analyst '') = Inr '' Data Analyst ''
      \<and> strip '' Data Analyst '' \<noteq> []"
    by (simp add: title_selectors_def title_rejects_def fallback_page_def leaf_def strip_examples)
  have title: "extract_job_title fallback_page = Some ''Data Analyst''"
    using fallback_order [of 2 fallback_page "leaf '' Data Analyst ''" "'' Data Analyst ''"] t
    by (simp add: strip_examples)
  have d: "1 < length desc_selectors
      \<and> (\<forall>s\<in>set (take 1 desc_selectors). desc_rejects fallback_page s)
      \<and> find_elements fallback_page (CSS_SELECTOR, desc_selectors ! 1) =
          Inr [leaf ''Apply now'', leaf text_100, leaf long_text]
      \<and> 2 < length [leaf ''Apply now'', leaf text_100, leaf long_text]
      \<and> (\<forall>e\<in>set (take 2 [leaf ''Apply now'', leaf text_100, leaf long_text]). desc_unqualified e)
      \<and> elem_text ([leaf ''Apply now'', leaf text_100, leaf long_text] ! 2) = Inr long_text
      \<and> 100 < length (strip long_text)"
    by (simp add: desc_selectors_def desc_rejects_def fallback_page_def leaf_def
        desc_unqualified_def strip_examples text_100_def long_text_def strip_replicate_x)
  have desc: "extract_description fallback_page = Some long_text"
    using fallback_order [where d = fallback_page and K' = 1 and j = 2 and u = long_text
        and els = "[leaf ''Apply now'', leaf text_100, leaf long_text]"] d
    by (simp add: long_text_def strip_replicate_x)
  have b: "\<forall>l\<in>set title_selectors. title_rejects bare_dom l"
    by (simp add: title_selectors_def title_rejects_def bare_dom_def)
  have bare_title: "extract_job_title bare_dom = None"
    using fallback_order [where d = bare_dom] b by blast
  have "\<forall>s\<in>set desc_selectors. desc_rejects bare_dom s"
    by (simp add: desc_selectors_def desc_rejects_def bare_dom_def)
  then have bare_desc: "extract_description bare_dom = None"
    using fallback_order [where d = bare_dom] by blast
  have "\<forall>s\<in>set desc_selectors. desc_rejects short_page s"
    by (simp add: desc_selectors_def desc_rejects_def short_page_def leaf_def
        desc_unqualified_def strip_examples)
  then have short_desc: "extract_description short_page = None"
    using fallback_order [where d = short_page] by blast
  have "extract_description short_page = None \<and> ''.iCIMS_JobContent'' \<in> set desc_selectors
      \<and> find_elements short_page (CSS_SELECTOR, ''.iCIMS_JobContent'') = Inr [leaf ''Apply now'']
      \<and> 0 < length [leaf ''Apply now'']
      \<and> (\<forall>e\<in>set (take 0 [leaf ''Apply now'']). desc_unqualified e)
      \<and> elem_text ([leaf ''Apply now''] ! 0) = Inr ''Apply now''"
    using short_desc by (simp add: desc_selectors_def short_page_def leaf_def)
  then have "length (strip ''Apply now'') \<le> 100"
    using fallback_order [where d = short_page and s' = "''.iCIMS_JobContent''"
        and els' = "[leaf ''Apply now'']" and j' = 0 and u' = "''Apply now''"]
    by blast
  with title desc bare_title bare_desc short_desc show ?thesis by blast
qed

lemma description_first_qualifying:
  assumes "K < length desc_selectors"
    and "\<forall>s\<in>set (take K desc_selectors). desc_rejects d s"
    and "find_elements d (CSS_SELECTOR, desc_selectors ! K) = Inr els"
    and "j < length els" and "\<forall>e\<in>set (take j els). desc_unqualified e"
    and "elem_text (els ! j) = Inr u" and "100 < length (strip u)"
  shows "extract_description d = Some (strip u)"
proof -
  have split: "desc_selectors =
      take K desc_selectors @ desc_selectors ! K # drop (Suc K) desc_selectors"
    using assms(1) by (simp add: id_take_nth_drop)
  have first: "extract_description_elems els = Inr (Some (strip u))"
    using assms(4-7) by (rule desc_elems_first)
  have "extract_description_loop d
          (take K desc_selectors @ desc_selectors ! K # drop (Suc K) desc_selectors) =
        extract_description_loop d (desc_selectors ! K # drop (Suc K) desc_selectors)"
    using assms(2) by (rule desc_loop_skip)
  also have "\<dots> = Some (strip u)"
    using assms(3) first by simp
  finally show ?thesis
    unfolding extract_description_def using split by simp
qed

text \<open>
  C5. The description extractor accepts a stripped text only when it is longer than 100
  characters. When the locators before a locator are rejected and the elements before
  one of its elements do not qualify, the extractor returns that element's stripped text
  if it has 101 characters, and more generally if it has more than 100: the first
  qualifying element, in document order, of the first locator that has one. An element
  before it whose stripped text has 100 characters or fewer was passed over: the scan went
  on and its text is not the result. Whatever the extractor returns is longer than 100
  characters, and when every locator is rejected it returns \<open>None\<close>.
\<close>

theorem description_length_gate:
  "(K < length desc_selectors \<and> (\<forall>s\<in>set (take K desc_selectors). desc_rejects d s)
      \<and> find_elements d (CSS_SELECTOR, desc_selectors ! K) = Inr els
      \<and> j < length els \<and> (\<forall>e\<in>set (take j els). desc_unqualified e)
      \<and> elem_text (els ! j) = Inr u \<and> length (strip u) = 101
      \<longrightarrow> extract_description d = Some (strip u))
   \<and> (K < length desc_selectors \<and> (\<forall>s\<in>set (take K desc_selectors). desc_rejects d s)
      \<and> find_elements d (CSS_SELECTOR, desc_selectors ! K) = Inr els
      \<and> j < length els \<and> (\<forall>e\<in>set (take j els). desc_unqualified e)
      \<and> elem_text (els ! j) = Inr u \<and> 100 < length (strip u)
      \<longrightarrow> extract_description d = Some (strip u))
   \<and> (K < length desc_selectors \<and> (\<forall>s\<in>set (take K desc_selectors). desc_rejects d s)
      \<and> find_elements d (CSS_SELECTOR, desc_selectors ! K) = Inr els
      \<and> j < length els \<and> (\<forall>e\<in>set (take j els). desc_unqualified e)
      \<and> elem_text (els ! j) = Inr u \<and> 100 < length (strip u)
      \<and> i < j \<and> elem_text (els ! i) = Inr t \<and> length (strip t) \<le> 100
      \<longrightarrow> extract_description d = Some (strip u) \<and> extract_description d \<noteq> Some (strip t))
   \<and> (extract_description d = Some r \<longrightarrow> 100 < length r)
   \<and> ((\<forall>s\<in>set desc_selectors. desc_rejects d s) \<longrightarrow> extract_description d = None)"
proof (intro conjI impI)
  assume "K < length desc_selectors \<and> (\<forall>s\<in>set (take K desc_selectors). desc_rejects d s)
      \<and> find_elements d (CSS_SELECTOR, desc_selectors ! K) = Inr els
      \<and> j < length els \<and> (\<forall>e\<in>set (take j els). desc_unqualified e)
      \<and> elem_text (els ! j) = Inr u \<and> length (strip u) = 101"
  then show "extract_description d = Some (strip u)"
    by (intro description_first_qualifying [of K d els j u]) simp_all
next
  assume "K < length desc_selectors \<and> (\<forall>s\<in>set (take K desc_selectors). desc_rejects d s)
      \<and> find_elements d (CSS_SELECTOR, desc_selectors ! K) = Inr els
      \<and> j < length els \<and> (\<forall>e\<in>set (take j els). desc_unqualified e)
      \<and> elem_text (els ! j) = Inr u \<and> 100 < length (strip u)"
  then show "extract_description d = Some (strip u)"
    by (intro description_first_qualifying [of K d els j u]) simp_all
next
  assume a: "K < length desc_selectors \<and> (\<forall>s\<in>set (take K desc_selectors). desc_rejects d s)
      \<and> find_elements d (CSS_SELECTOR, desc_selectors ! K) = Inr els
      \<and> j < length els \<and> (\<forall>e\<in>set (take j els). desc_unqualified e)
      \<and> elem_text (els ! j) = Inr u \<and> 100 < length (strip u)
      \<and> i < j \<and> elem_text (els ! i) = Inr t \<and> length (strip t) \<le> 100"
  then have r: "extract_description d = Some (strip u)"
    by (intro description_first_qualifying [of K d els j u]) simp_all
  then show "extract_description d = Some (strip u)" .
  from a have "length (strip t) < length (strip u)" by simp
  then have "strip u \<noteq> strip t" by auto
  with r show "extract_description d \<noteq> Some (strip t)" by simp
next
  assume "extract_description d = Some r"
  then show "100 < length r"
    unfolding extract_description_def by (rule desc_loop_long)
next
  assume "\<forall>s\<in>set desc_selectors. desc_rejects d s"
  then have "extract_description_loop d (desc_selectors @ []) = extract_description_loop d []"
    by (rule desc_loop_skip)
  then show "extract_description d = None"
    by (simp add: extract_description_def)
qed

theorem description_length_gate_witness:
  "extract_description fallback_page = Some long_text
   \<and> extract_description fallback_page \<noteq> Some text_100
   \<and> length text_100 = 100 \<and> length long_text = 101
   \<and> 100 < length long_text
   \<and> extract_description short_page = None"
proof -
  let ?els = "[leaf ''Apply now'', leaf text_100, leaf long_text]"
  have h: "1 < length desc_selectors
      \<and> (\<forall>s\<in>set (take 1 desc_selectors). desc_rejects fallback_page s)
      \<and> find_elements fallback_page (CSS_SELECTOR, desc_selectors ! 1) = Inr ?els
      \<and> 2 < length ?els
      \<and> (\<forall>e\<in>set (take 2 ?els). desc_unqualified e)
      \<and> elem_text (?els ! 2) = Inr long_text"
    by (simp add: desc_selectors_def desc_rejects_def fallback_page_def leaf_def
        desc_unqualified_def strip_examples text_100_def long_text_def strip_replicate_x)
  have s101: "length (strip long_text) = 101" and s100: "length (strip text_100) \<le> 100"
    by (simp_all add: long_text_def text_100_def strip_replicate_x)
  have st: "strip long_text = long_text" "strip text_100 = text_100"
    by (simp_all add: long_text_def text_100_def strip_replicate_x)
  have one: "extract_description fallback_page = Some (strip long_text)"
    using h s101
      description_length_gate [where K = 1 and d = fallback_page and els = ?els and j = 2
        and u = long_text]
    by blast
  have l: "100 < length (strip long_text)"
    using s101 by simp
  have "extract_description fallback_page = Some (strip long_text)"
    using h l
      description_length_gate [where K = 1 and d = fallback_page and els = ?els and j = 2
        and u = long_text]
    by blast
  have "(1::nat) < 2 \<and> elem_text (?els ! 1) = Inr text_100"
    by (simp add: leaf_def)
  with h s101 s100 have two: "extract_description fallback_page \<noteq> Some (strip text_100)"
    using description_length_gate [where K = 1 and d = fallback_page and els = ?els and j = 2
        and u = long_text and i = 1 and t = text_100]
    by force
  from one have "100 < length (strip long_text)"
    using description_length_gate [where d = fallback_page and r = "strip long_text"] by blast
  then have three: "100 < length long_text" by (simp add: st)
  have "\<forall>s\<in>set desc_selectors. desc_rejects short_page s"
    by (simp add: desc_selectors_def desc_rejects_def short_page_def leaf_def
        desc_unqualified_def strip_examples)
  then have four: "extract_description short_page = None"
    using description_length_gate [where d = short_page] by blast
  from one two three four show ?thesis
    by (simp add: st) (simp add: text_100_def long_text_def)
qed

subsection \<open>Key-value extractor\<close>

lemma pairs_read_scan:
  "pairs_read ps kvs \<Longrightarrow>
   extract_definition_pairs ps additional_info =
     (foldl (\<lambda>m (k, v). AList.update k v m) additional_info (spec_retained (strip_pairs kvs)), None)"
proof (induction ps arbitrary: kvs additional_info)
  case Nil
  then show ?case by (simp add: pairs_read_def spec_retained_def strip_pairs_def)
next
  case (Cons p ps)
  obtain dt dd where p: "p = (dt, dd)" by (cases p)
  from Cons.prems obtain k v kvs' where kvs: "kvs = (k, v) # kvs'"
    and texts: "elem_text dt = Inr k" "elem_text dd = Inr v" and rest: "pairs_read ps kvs'"
    by (cases kvs) (auto simp: pairs_read_def p)
  show ?case
    using Cons.IH [OF rest] texts
    by (simp add: p kvs spec_retained_def strip_pairs_def Let_def)
qed

lemma pairs_read_zip:
  "map elem_text dts = map Inr labels \<Longrightarrow> map elem_text dds = map Inr values \<Longrightarrow>
   pairs_read (zip dts dds) (zip labels values)"
proof -
  assume a: "map elem_text dts = map Inr labels" "map elem_text dds = map Inr values"
  have "map (\<lambda>(dt, dd). (elem_text dt, elem_text dd)) (zip dts dds) =
        zip (map elem_text dts) (map elem_text dds)"
    by (simp add: zip_map_map)
  also have "\<dots> = zip (map Inr labels) (map Inr values)" using a by simp
  also have "\<dots> = map (\<lambda>(k, v). (Inr k, Inr v)) (zip labels values)"
    by (simp add: zip_map_map)
  finally show ?thesis by (simp add: pairs_read_def)
qed

lemma strip_pairs_zip:
  "strip_pairs (zip labels values) = zip (map strip labels) (map strip values)"
  by (simp add: strip_pairs_def zip_map_map)

lemma groups_read_scan:
  "list_all2 group_reads dls groups \<Longrightarrow>
   extract_definition_dls dls additional_info =
     (foldl (\<lambda>m (k, v). AList.update k v m) additional_info
        (spec_retained (spec_pairs groups)), None)"
proof (induction dls groups arbitrary: additional_info rule: list_all2_induct)
  case Nil
  then show ?case by (simp add: spec_pairs_def spec_retained_def)
next
  case (Cons dl dls g groups)
  obtain labels "values" where g: "g = (labels, values)" by (cases g)
  from Cons.hyps(1) obtain dts dds where
    finds: "elem_find_elements dl (TAG_NAME, ''dt'') = Inr dts"
           "elem_find_elements dl (TAG_NAME, ''dd'') = Inr dds"
    and texts: "map elem_text dts = map Inr labels" "map elem_text dds = map Inr values"
    by (auto simp: group_reads_def g split: sum.splits)
  have "extract_definition_pairs (zip dts dds) additional_info =
     (foldl (\<lambda>m (k, v). AList.update k v m) additional_info
        (spec_retained (zip (map strip labels) (map strip values))), None)"
    using pairs_read_scan [OF pairs_read_zip [OF texts]] by (simp add: strip_pairs_zip)
  then show ?case
    using finds Cons.IH
    by (simp add: g spec_pairs_def spec_retained_def)
qed

lemma map_of_foldl_update:
  "map_of (foldl (\<lambda>m (k, v). AList.update k v m) m0 ps) k =
     (case map_of (rev ps) k of None \<Rightarrow> map_of m0 k | Some v \<Rightarrow> Some v)"
  by (induction ps arbitrary: m0) (auto simp: update_conv' map_add_def split: option.splits)

lemma length_spec_pairs:
  "length (spec_pairs groups) =
     sum_list (map (\<lambda>(labels, values). min (length labels) (length values)) groups)"
  by (induction groups) (auto simp: spec_pairs_def)


text \<open>
  C6. On a page whose groups can all be read, the key-value extractor returns the mapping
  of the specification: the i-th label of a group paired with its i-th value up to the
  shorter list, pairs with an empty trimmed text dropped, pairs stored group after group
  in document order, so that the value of a label is the one of its last retained pair.
  The number of pairs is the sum over the groups of the shorter length (2 for 3 labels
  and 2 values), and a page without groups yields the empty mapping.
\<close>

theorem positional_pairing:
  "(find_elements d (TAG_NAME, ''dl'') = Inr dls \<and> list_all2 group_reads dls groups \<longrightarrow>
      extract_definition_lists d = spec_mapping (spec_retained (spec_pairs groups))
      \<and> map_of (extract_definition_lists d) k = map_of (rev (spec_retained (spec_pairs groups))) k)
   \<and> length (spec_pairs groups) =
       sum_list (map (\<lambda>(labels, values). min (length labels) (length values)) groups)
   \<and> (find_elements d (TAG_NAME, ''dl'') = Inr [] \<longrightarrow> extract_definition_lists d = [])"
proof (intro conjI impI)
  assume a: "find_elements d (TAG_NAME, ''dl'') = Inr dls \<and> list_all2 group_reads dls groups"
  then have f: "find_elements d (TAG_NAME, ''dl'') = Inr dls"
    and g: "list_all2 group_reads dls groups"
    by simp_all
  show eq: "extract_definition_lists d = spec_mapping (spec_retained (spec_pairs groups))"
    using f groups_read_scan [OF g]
    by (simp add: extract_definition_lists_def spec_mapping_def)
  show "map_of (extract_definition_lists d) k = map_of (rev (spec_retained (spec_pairs groups))) k"
    unfolding eq spec_mapping_def
    by (simp add: map_of_foldl_update split: option.splits)
next
  show "length (spec_pairs groups) =
       sum_list (map (\<lambda>(labels, values). min (length labels) (length values)) groups)"
    by (rule length_spec_pairs)
next
  assume "find_elements d (TAG_NAME, ''dl'') = Inr []"
  then show "extract_definition_lists d = []"
    by (simp add: extract_definition_lists_def)
qed

lemma kv_page_groups:
  "list_all2 group_reads
     [dl_elem [leaf '' Department '', leaf ''Type'', leaf ''Extra'']
              [leaf ''Engineering'', leaf '' Full-time ''],
      dl_elem [leaf ''Department'', leaf ''  ''] [leaf ''Data'', leaf ''x'']]
     [(['' Department '', ''Type'', ''Extra''], [''Engineering'', '' Full-time '']),
      ([''Department'', ''  ''], [''Data'', ''x''])]"
  by (simp add: group_reads_def dl_elem_def leaf_def)

lemma strip_kv_examples:
  "strip '' Department '' = ''Department''" "strip ''Department'' = ''Department''"
  "strip ''Type'' = ''Type''" "strip ''Extra'' = ''Extra''"
  "strip ''Engineering'' = ''Engineering''" "strip '' Full-time '' = ''Full-time''"
  "strip ''Full-time'' = ''Full-time''"
  "strip ''  '' = []" "strip ''Data'' = ''Data''" "strip ''x'' = ''x''"
  by (simp_all add: strip_def isspace_def)

theorem positional_pairing_witness:
  "extract_definition_lists kv_page = [(''Department'', ''Data''), (''Type'', ''Full-time'')]
   \<and> map_of (extract_definition_lists kv_page) ''Department'' = Some ''Data''
   \<and> length (spec_pairs [(['' Department '', ''Type'', ''Extra''], [''Engineering'', '' Full-time ''])]) = 2
   \<and> extract_definition_lists bare_dom = []"
proof -
  let ?groups = "[(['' Department '', ''Type'', ''Extra''], [''Engineering'', '' Full-time '']),
      ([''Department'', ''  ''], [''Data'', ''x''])]"
  have "find_elements kv_page (TAG_NAME, ''dl'') =
          Inr [dl_elem [leaf '' Department '', leaf ''Type'', leaf ''Extra'']
                 [leaf ''Engineering'', leaf '' Full-time ''],
               dl_elem [leaf ''Department'', leaf ''  ''] [leaf ''Data'', leaf ''x'']]"
    by (simp add: kv_page_def page_of_dls_def)
  with kv_page_groups positional_pairing [of kv_page _ ?groups "''Department''"]
  have "extract_definition_lists kv_page = spec_mapping (spec_retained (spec_pairs ?groups))"
    and "map_of (extract_definition_lists kv_page) ''Department'' =
         map_of (rev (spec_retained (spec_pairs ?groups))) ''Department''"
    by blast+
  then have one: "extract_definition_lists kv_page = [(''Department'', ''Data''), (''Type'', ''Full-time'')]"
    and two: "map_of (extract_definition_lists kv_page) ''Department'' = Some ''Data''"
    by (simp_all add: spec_mapping_def spec_retained_def spec_pairs_def strip_kv_examples)
  have three: "length (spec_pairs [(['' Department '', ''Type'', ''Extra''], [''Engineering'', '' Full-time ''])]) = 2"
    using positional_pairing [where groups = "[(['' Department '', ''Type'', ''Extra''], [''Engineering'', '' Full-time ''])]"]
    by simp
  have "find_elements bare_dom (TAG_NAME, ''dl'') = Inr []"
    by (simp add: bare_dom_def)
  then have "extract_definition_lists bare_dom = []"
    using positional_pairing [where d = bare_dom] by blast
  with one two three show ?thesis by blast
qed


lemma pairs_scan_append:
  "extract_definition_pairs (ps1 @ ps2) additional_info =
     (case extract_definition_pairs ps1 additional_info of
        (info', Some e) \<Rightarrow> (info', Some e)
      | (info', None) \<Rightarrow> extract_definition_pairs ps2 info')"
  by (induction ps1 arbitrary: additional_info)
     (auto simp: Let_def split: sum.splits prod.splits option.splits)

lemma dls_scan_append:
  "extract_definition_dls (dls1 @ dls2) additional_info =
     (case extract_definition_dls dls1 additional_info of
        (info', Some e) \<Rightarrow> (info', Some e)
      | (info', None) \<Rightarrow> extract_definition_dls dls2 info')"
  by (induction dls1 arbitrary: additional_info)
     (auto split: sum.splits prod.splits option.splits)

lemma pairs_scan_fails:
  "elem_text bdt = Inl e \<or> (elem_text bdt = Inr kt \<and> elem_text bdd = Inl e) \<Longrightarrow>
   extract_definition_pairs ((bdt, bdd) # rest) additional_info = (additional_info, Some e)"
  by auto

lemma pairs_scan_distinct:
  "distinct (map fst additional_info) \<Longrightarrow>
   distinct (map fst (fst (extract_definition_pairs ps additional_info)))"
  by (induction ps arbitrary: additional_info)
     (auto simp: Let_def distinct_update split: sum.splits)

lemma dls_scan_distinct:
  "distinct (map fst additional_info) \<Longrightarrow>
   distinct (map fst (fst (extract_definition_dls dls additional_info)))"
proof (induction dls arbitrary: additional_info)
  case Nil
  then show ?case by simp
next
  case (Cons dl dls)
  show ?case
  proof (cases "elem_find_elements dl (TAG_NAME, ''dt'')")
    case (Inl e)
    then show ?thesis using Cons.prems by simp
  next
    case dts: (Inr dts)
    show ?thesis
    proof (cases "elem_find_elements dl (TAG_NAME, ''dd'')")
      case (Inl e)
      then show ?thesis using Cons.prems dts by simp
    next
      case dds: (Inr dds)
      obtain info' r where scan: "extract_definition_pairs (zip dts dds) additional_info = (info', r)"
        by (cases "extract_definition_pairs (zip dts dds) additional_info")
      have d: "distinct (map fst info')"
        using pairs_scan_distinct [OF Cons.prems, of "zip dts dds"] scan by simp
      show ?thesis
        using dts dds scan d Cons.IH [OF d] by (cases r) simp_all
    qed
  qed
qed

text \<open>
  C10. When the scan of the groups fails partway, the key-value extractor returns the
  mapping of the pairs read before the failure: the empty mapping when the lookup of the
  groups raises, the mapping of the groups before it when a group's label or value lookup
  raises, and the mapping of the groups before it and of the group's pairs before the
  pair whose label or value text cannot be read. In every case the result is a mapping:
  no label occurs twice.
\<close>

theorem partial_result_on_failure:
  "(find_elements d (TAG_NAME, ''dl'') = Inl e \<longrightarrow> extract_definition_lists d = [])
   \<and> (find_elements d (TAG_NAME, ''dl'') = Inr (pre @ dl # post)
      \<and> list_all2 group_reads pre groups
      \<and> (elem_find_elements dl (TAG_NAME, ''dt'') = Inl e
         \<or> (elem_find_elements dl (TAG_NAME, ''dt'') = Inr dts
            \<and> elem_find_elements dl (TAG_NAME, ''dd'') = Inl e))
      \<longrightarrow> extract_definition_lists d = spec_mapping (spec_retained (spec_pairs groups)))
   \<and> (find_elements d (TAG_NAME, ''dl'') = Inr (pre @ dl # post)
      \<and> list_all2 group_reads pre groups
      \<and> elem_find_elements dl (TAG_NAME, ''dt'') = Inr dts
      \<and> elem_find_elements dl (TAG_NAME, ''dd'') = Inr dds
      \<and> zip dts dds = ok @ (bdt, bdd) # rest \<and> pairs_read ok kvs
      \<and> (elem_text bdt = Inl e \<or> (elem_text bdt = Inr kt \<and> elem_text bdd = Inl e))
      \<longrightarrow> extract_definition_lists d =
            spec_mapping (spec_retained (spec_pairs groups @ strip_pairs kvs)))
   \<and> distinct (map fst (extract_definition_lists d))"
proof (intro conjI impI)
  assume "find_elements d (TAG_NAME, ''dl'') = Inl e"
  then show "extract_definition_lists d = []"
    by (simp add: extract_definition_lists_def)
next
  assume a: "find_elements d (TAG_NAME, ''dl'') = Inr (pre @ dl # post)
      \<and> list_all2 group_reads pre groups
      \<and> (elem_find_elements dl (TAG_NAME, ''dt'') = Inl e
         \<or> (elem_find_elements dl (TAG_NAME, ''dt'') = Inr dts
            \<and> elem_find_elements dl (TAG_NAME, ''dd'') = Inl e))"
  then have g: "list_all2 group_reads pre groups" by simp
  have "extract_definition_dls (dl # post) acc = (acc, Some e)" for acc
    using a by auto
  then have "extract_definition_dls (pre @ dl # post) [] =
      (spec_mapping (spec_retained (spec_pairs groups)), Some e)"
    by (simp add: dls_scan_append groups_read_scan [OF g] spec_mapping_def)
  with a show "extract_definition_lists d = spec_mapping (spec_retained (spec_pairs groups))"
    by (simp add: extract_definition_lists_def)
next
  assume a: "find_elements d (TAG_NAME, ''dl'') = Inr (pre @ dl # post)
      \<and> list_all2 group_reads pre groups
      \<and> elem_find_elements dl (TAG_NAME, ''dt'') = Inr dts
      \<and> elem_find_elements dl (TAG_NAME, ''dd'') = Inr dds
      \<and> zip dts dds = ok @ (bdt, bdd) # rest \<and> pairs_read ok kvs
      \<and> (elem_text bdt = Inl e \<or> (elem_text bdt = Inr kt \<and> elem_text bdd = Inl e))"
  then have g: "list_all2 group_reads pre groups" and r: "pairs_read ok kvs"
    and bad: "elem_text bdt = Inl e \<or> (elem_text bdt = Inr kt \<and> elem_text bdd = Inl e)"
    by simp_all
  have "extract_definition_pairs (ok @ (bdt, bdd) # rest) acc =
      (foldl (\<lambda>m (k, v). AList.update k v m) acc (spec_retained (strip_pairs kvs)), Some e)" for acc
    by (simp add: pairs_scan_append pairs_read_scan [OF r] pairs_scan_fails [OF bad]
        del: extract_definition_pairs.simps)
  then have "extract_definition_dls (dl # post) acc =
      (foldl (\<lambda>m (k, v). AList.update k v m) acc (spec_retained (strip_pairs kvs)), Some e)" for acc
    using a by simp
  then have "extract_definition_dls (pre @ dl # post) [] =
      (spec_mapping (spec_retained (spec_pairs groups @ strip_pairs kvs)), Some e)"
    by (simp add: dls_scan_append groups_read_scan [OF g] spec_mapping_def spec_retained_def)
  with a show "extract_definition_lists d =
      spec_mapping (spec_retained (spec_pairs groups @ strip_pairs kvs))"
    by (simp add: extract_definition_lists_def)
next
  show "distinct (map fst (extract_definition_lists d))"
    using dls_scan_distinct [of "[]"]
    by (simp add: extract_definition_lists_def split: sum.splits)
qed

theorem partial_result_on_failure_witness:
  "extract_definition_lists down_page = []
   \<and> extract_definition_lists failing_group_page = [(''Department'', ''Engineering'')]
   \<and> extract_definition_lists failing_pair_page =
       [(''Department'', ''Engineering''), (''Type'', ''Full-time'')]"
proof -
  have "find_elements down_page (TAG_NAME, ''dl'') = Inl WebDriverException"
    by (simp add: down_page_def)
  then have one: "extract_definition_lists down_page = []"
    using partial_result_on_failure [where d = down_page and e = WebDriverException]
    by blast
  have reads: "list_all2 group_reads [dl_elem [leaf ''Department''] [leaf ''Engineering'']]
      [([''Department''], [''Engineering''])]"
    by (simp add: group_reads_def dl_elem_def leaf_def)
  have "find_elements failing_group_page (TAG_NAME, ''dl'') =
          Inr ([dl_elem [leaf ''Department''] [leaf ''Engineering'']] @ stale #
               [dl_elem [leaf ''Never''] [leaf ''Read'']])
      \<and> (elem_find_elements stale (TAG_NAME, ''dt'') = Inl StaleElementReferenceException
         \<or> (elem_find_elements stale (TAG_NAME, ''dt'') = Inr []
            \<and> elem_find_elements stale (TAG_NAME, ''dd'') = Inl StaleElementReferenceException))"
    by (simp add: failing_group_page_def page_of_dls_def stale_def)
  with reads have "extract_definition_lists failing_group_page =
      spec_mapping (spec_retained (spec_pairs [([''Department''], [''Engineering''])]))"
    using partial_result_on_failure [where d = failing_group_page
        and e = StaleElementReferenceException
        and pre = "[dl_elem [leaf ''Department''] [leaf ''Engineering'']]" and dl = stale
        and post = "[dl_elem [leaf ''Never''] [leaf ''Read'']]"
        and groups = "[([''Department''], [''Engineering''])]" and dts = "[]"]
    by blast
  then have two: "extract_definition_lists failing_group_page = [(''Department'', ''Engineering'')]"
    by (simp add: spec_mapping_def spec_retained_def spec_pairs_def strip_kv_examples)
  let ?dl = "dl_elem [leaf ''Type'', leaf ''Level'', leaf ''Shift'']
               [leaf ''Full-time'', stale, leaf ''Day'']"
  have "find_elements failing_pair_page (TAG_NAME, ''dl'') =
          Inr ([dl_elem [leaf ''Department''] [leaf ''Engineering'']] @ ?dl #
               [dl_elem [leaf ''Never''] [leaf ''Read'']])
      \<and> elem_find_elements ?dl (TAG_NAME, ''dt'') = Inr [leaf ''Type'', leaf ''Level'', leaf ''Shift'']
      \<and> elem_find_elements ?dl (TAG_NAME, ''dd'') = Inr [leaf ''Full-time'', stale, leaf ''Day'']
      \<and> zip [leaf ''Type'', leaf ''Level'', leaf ''Shift''] [leaf ''Full-time'', stale, leaf ''Day''] =
          [(leaf ''Type'', leaf ''Full-time'')] @ (leaf ''Level'', stale) # [(leaf ''Shift'', leaf ''Day'')]
      \<and> pairs_read [(leaf ''Type'', leaf ''Full-time'')] [(''Type'', ''Full-time'')]
      \<and> (elem_text (leaf ''Level'') = Inl StaleElementReferenceException
         \<or> (elem_text (leaf ''Level'') = Inr ''Level''
            \<and> elem_text stale = Inl StaleElementReferenceException))"
    by (simp add: failing_pair_page_def page_of_dls_def stale_def dl_elem_def leaf_def
        pairs_read_def)
  with reads have "extract_definition_lists failing_pair_page =
      spec_mapping (spec_retained (spec_pairs [([''Department''], [''Engineering''])]
        @ strip_pairs [(''Type'', ''Full-time'')]))"
    using partial_result_on_failure [where d = failing_pair_page
        and e = StaleElementReferenceException
        and pre = "[dl_elem [leaf ''Department''] [leaf ''Engineering'']]" and dl = ?dl
        and post = "[dl_elem [leaf ''Never''] [leaf ''Read'']]"
        and groups = "[([''Department''], [''Engineering''])]"
        and dts = "[leaf ''Type'', leaf ''Level'', leaf ''Shift'']"
        and dds = "[leaf ''Full-time'', stale, leaf ''Day'']"
        and ok = "[(leaf ''Type'', leaf ''Full-time'')]" and bdt = "leaf ''Level''"
        and bdd = stale and rest = "[(leaf ''Shift'', leaf ''Day'')]"
        and kvs = "[(''Type'', ''Full-time'')]" and kt = "''Level''"]
    by blast
  then have three: "extract_definition_lists failing_pair_page =
       [(''Department'', ''Engineering''), (''Type'', ''Full-time'')]"
    by (simp add: spec_mapping_def spec_retained_def spec_pairs_def strip_pairs_def
        strip_kv_examples)
  from one two three show ?thesis by blast
qed


subsection \<open>Job id\<close>

lemma split_from_nonempty: "split_from sep cur s \<noteq> []"
  by (induction sep cur s rule: split_from.induct) auto

lemma split_from_two:
  "sep \<noteq> [] \<Longrightarrow> py_in sep s \<Longrightarrow> 2 \<le> length (split_from sep cur s)"
proof (induction sep cur s rule: split_from.induct)
  case (1 sep cur)
  then show ?case by simp
next
  case (2 sep cur c cs)
  show ?case
  proof (cases "prefix sep (c # cs)")
    case True
    have "split_from sep [] (drop (length sep) (c # cs)) \<noteq> []"
      by (rule split_from_nonempty)
    then have "1 \<le> length (split_from sep [] (drop (length sep) (c # cs)))"
      by (simp add: Suc_leI)
    then show ?thesis using True "2.prems" by simp
  next
    case False
    then have "py_in sep cs" using "2.prems" by simp
    then show ?thesis using False "2.IH"(2) "2.prems" by simp
  qed
qed

lemma split_from_skip:
  "a \<notin> set seg \<Longrightarrow>
   split_from (a # sep') cur (seg @ rest) = split_from (a # sep') (cur @ seg) rest"
  by (induction seg arbitrary: cur) auto

lemma split_from_hd: "\<exists>p. hd (split_from sep cur s) = cur @ p \<and> prefix p s"
proof (induction sep cur s rule: split_from.induct)
  case (1 sep cur)
  then show ?case by simp
next
  case (2 sep cur c cs)
  show ?case
  proof (cases "sep \<noteq> [] \<and> prefix sep (c # cs)")
    case True
    then have "hd (split_from sep cur (c # cs)) = cur @ []" by simp
    then show ?thesis by (metis Nil_prefix)
  next
    case False
    with "2.IH"(2) obtain p where p: "hd (split_from sep (cur @ [c]) cs) = (cur @ [c]) @ p"
      "prefix p cs" by blast
    then have "hd (split_from sep cur (c # cs)) = cur @ (c # p) \<and> prefix (c # p) (c # cs)"
      using False by auto
    then show ?thesis by blast
  qed
qed

lemma split_slash_hd:
  assumes "CHR ''/'' \<notin> set seg" and "r = [] \<or> hd r = CHR ''/''"
  shows "hd (split_from ''/'' cur (seg @ r)) = cur @ seg"
proof -
  have "split_from ''/'' cur (seg @ r) = split_from ''/'' (cur @ seg) r"
    using assms(1) by (rule split_from_skip)
  moreover have "hd (split_from ''/'' (cur @ seg) r) = cur @ seg"
    using assms(2) by (cases r) auto
  ultimately show ?thesis by simp
qed

lemma prefix_append_short:
  "prefix xs (ys @ zs) \<Longrightarrow> length xs \<le> length ys \<Longrightarrow> prefix xs ys"
  using prefix_length_prefix [of xs "ys @ zs" ys] by simp

lemma split_from_first:
  "sep \<noteq> [] \<Longrightarrow> \<not> py_in sep (pre @ butlast sep) \<Longrightarrow>
   split_from sep cur (pre @ sep @ tail) = (cur @ pre) # split_from sep [] tail"
proof (induction pre arbitrary: cur)
  case Nil
  then obtain a sep' where sep: "sep = a # sep'" by (cases sep) auto
  show ?case by (simp add: sep)
next
  case (Cons c pre)
  have np: "\<not> prefix sep (c # pre @ butlast sep)" and ni: "\<not> py_in sep (pre @ butlast sep)"
    using Cons.prems(2) by simp_all
  have "\<not> prefix sep (c # pre @ sep @ tail)"
  proof
    assume p: "prefix sep (c # pre @ sep @ tail)"
    have eq: "c # pre @ sep @ tail = (c # pre @ butlast sep) @ (last sep # tail)"
      using Cons.prems(1) by simp
    have len: "length sep \<le> length (c # pre @ butlast sep)"
      by simp
    from p have "prefix sep ((c # pre @ butlast sep) @ (last sep # tail))"
      unfolding eq .
    then have "prefix sep (c # pre @ butlast sep)"
      using len by (rule prefix_append_short)
    with np show False by contradiction
  qed
  then show ?case using Cons.IH [OF Cons.prems(1) ni] by simp
qed


lemma index_0: "xs \<noteq> [] \<Longrightarrow> index xs 0 = Inr (hd xs)"
  by (cases xs) (simp_all add: index_def)

lemma index_1_Cons: "ys \<noteq> [] \<Longrightarrow> index (x # ys) (Suc 0) = Inr (hd ys)"
  by (cases ys) (simp_all add: index_def)

lemma job_id_no_exception: "\<exists>r. job_id_from_url url = Inr r"
proof (cases "py_in ''/jobs/'' url")
  case True
  then have "2 \<le> length (split ''/jobs/'' url)"
    unfolding split_def by (intro split_from_two) simp_all
  then obtain rest where rest: "index (split ''/jobs/'' url) 1 = Inr rest"
    by (auto simp: index_def)
  have "split ''/'' rest \<noteq> []"
    unfolding split_def by (rule split_from_nonempty)
  then show ?thesis using True rest
    by (simp add: job_id_from_url_def index_0)
next
  case False
  then show ?thesis by (simp add: job_id_from_url_def)
qed

lemma py_in_Nil: "py_in [] s"
  by (cases s) simp_all

lemma py_in_occurrence: "py_in sub (pre @ sub @ post)"
proof (induction pre)
  case Nil
  show ?case by (cases sub) (simp_all add: py_in_Nil)
next
  case (Cons a pre)
  then show ?case by simp
qed

lemma job_id_segment:
  assumes first: "\<not> py_in ''/jobs/'' (pre @ ''/jobs'')"
    and seg: "CHR ''/'' \<notin> set seg" and rest: "rest = [] \<or> hd rest = CHR ''/''"
  shows "job_id_from_url (pre @ ''/jobs/'' @ seg @ rest) = Inr (Some seg)"
proof -
  let ?url = "pre @ ''/jobs/'' @ seg @ rest"
  have "py_in ''/jobs/'' (pre @ ''/jobs/'' @ (seg @ rest))"
    by (rule py_in_occurrence)
  then have marker: "py_in ''/jobs/'' ?url" by simp
  have "\<not> py_in ''/jobs/'' (pre @ butlast ''/jobs/'')"
    using first by simp
  then have "split_from ''/jobs/'' [] (pre @ ''/jobs/'' @ (seg @ rest)) =
      ([] @ pre) # split_from ''/jobs/'' [] (seg @ rest)"
    by (intro split_from_first) simp_all
  then have sp: "split ''/jobs/'' ?url = pre # split_from ''/jobs/'' [] (seg @ rest)"
    by (simp add: split_def)
  have "split_from ''/jobs/'' [] (seg @ rest) = split_from ''/jobs/'' ([] @ seg) rest"
    using seg by (rule split_from_skip)
  moreover obtain p where p: "hd (split_from ''/jobs/'' ([] @ seg) rest) = ([] @ seg) @ p"
    "prefix p rest"
    using split_from_hd by blast
  ultimately have hd: "hd (split_from ''/jobs/'' [] (seg @ rest)) = seg @ p"
    by simp
  have "p = [] \<or> hd p = CHR ''/''"
    using p(2) rest by (cases p) (auto simp: prefix_def)
  then have seg_hd: "hd (split_from ''/'' [] (seg @ p)) = [] @ seg"
    using seg by (intro split_slash_hd)
  have one: "index (split ''/jobs/'' ?url) 1 = Inr (seg @ p)"
    unfolding sp using hd by (simp add: index_1_Cons split_from_nonempty)
  have two: "index (split ''/'' (seg @ p)) 0 = Inr seg"
    using seg_hd by (simp add: split_def index_0 split_from_nonempty)
  show ?thesis
    using marker one two by (simp add: job_id_from_url_def)
qed

lemma main_url_job_id: "job_id_from_url main_url = Inr (Some ''5417'')"
  by (simp add: job_id_from_url_def main_url_def split_def index_def)


subsection \<open>Keys of the structured data and of the record\<close>

lemma job_posting_location_keys:
  "fst ` set sd \<subseteq> set json_ld_keys \<Longrightarrow>
   fst ` set (fst (job_posting_location str data sd)) \<subseteq> set json_ld_keys"
  by (auto simp: job_posting_location_def Let_def dom_update json_ld_keys_def
      split: json.splits sum.splits)

lemma job_posting_fields_keys:
  assumes "fst ` set sd \<subseteq> set json_ld_keys"
  shows "fst ` set (fst (job_posting_fields str data sd)) \<subseteq> set json_ld_keys"
proof (cases "attr_get (dict_get data ''hiringOrganization'' (JDict [])) ''name'' JNull")
  case (Inl e)
  then show ?thesis using assms
    by (auto simp: job_posting_fields_def Let_def dom_update json_ld_keys_def)
next
  case (Inr company)
  let ?sd5 = "AList.update ''employment_type'' (dict_get data ''employmentType'' JNull)
     (AList.update ''posted_date'' (dict_get data ''datePosted'' JNull)
       (AList.update ''description'' (dict_get data ''description'' JNull)
         (AList.update ''company'' company
           (AList.update ''title'' (dict_get data ''title'' JNull) sd))))"
  have "fst ` set ?sd5 \<subseteq> set json_ld_keys"
    using assms by (auto simp: dom_update json_ld_keys_def)
  then have loc: "fst ` set (fst (job_posting_location str data ?sd5)) \<subseteq> set json_ld_keys"
    by (rule job_posting_location_keys)
  obtain sd6 r where sd6: "job_posting_location str data ?sd5 = (sd6, r)"
    by (cases "job_posting_location str data ?sd5")
  with loc have "fst ` set sd6 \<subseteq> set json_ld_keys" by simp
  then have "fst ` set (AList.update ''salary'' v sd6) \<subseteq> set json_ld_keys" for v
    by (auto simp: dom_update json_ld_keys_def)
  then show ?thesis
    using Inr sd6 \<open>fst ` set sd6 \<subseteq> set json_ld_keys\<close>
    by (cases r) (simp_all add: job_posting_fields_def Let_def)
qed

lemma extract_json_ld_loop_keys:
  "fst ` set sd \<subseteq> set json_ld_keys \<Longrightarrow>
   fst ` set (fst (extract_json_ld_loop ld str scripts sd)) \<subseteq> set json_ld_keys"
proof (induction scripts)
  case Nil
  then show ?case by simp
next
  case (Cons script scripts)
  show ?case
    using Cons.IH [OF Cons.prems] Cons.prems job_posting_fields_keys [OF Cons.prems]
    by (simp split: sum.splits json.splits)
qed

lemma extract_json_ld_keys:
  "fst ` set (extract_json_ld ld str sp) \<subseteq> set json_ld_keys"
  unfolding extract_json_ld_def by (rule extract_json_ld_loop_keys) simp

lemma merge_json_ld_other_key:
  assumes "k \<notin> fst ` set json_ld_data"
  shows "map_of (merge_json_ld json_ld_data job_data) k = map_of job_data k"
proof -
  have "map_of (merge_items json_ld_data job_data) k = map_of job_data k"
    using merge_items_changes [of json_ld_data job_data k] assms by force
  then show ?thesis by (simp add: merge_json_ld_def)
qed

lemma full_page_text_other_key:
  "k \<noteq> ''full_page_text'' \<Longrightarrow> map_of (full_page_text d job_data) k = map_of job_data k"
  by (simp add: full_page_text_def update_conv' split: sum.splits)

lemma job_details_job_id:
  assumes "job_id_from_url url = Inr r" and "extract_job_details pg url = Inr job_data"
  shows "map_of job_data ''job_id'' = Some (of_opt r)"
proof -
  from assms obtain sp where sp: "page_soup pg = Inr sp"
    by (auto simp: extract_job_details_def Let_def split: sum.splits)
  have nk: "''job_id'' \<notin> fst ` set (extract_json_ld (loads pg) (builtin_str pg) sp)"
    using extract_json_ld_keys [of "loads pg" "builtin_str pg" sp]
    by (auto simp: json_ld_keys_def)
  show ?thesis
    using assms sp
    by (auto simp: extract_job_details_def Let_def full_page_text_other_key
        merge_json_ld_other_key [OF nk] update_conv' init_job_data_def of_opt_def
        split: option.splits)
qed

subsection \<open>Job id in the record\<close>

lemma spec_job_id_main_url: "spec_job_id main_url = Some ''5417''"
  by (simp add: spec_job_id_def url_path_def main_url_def split_def)

text \<open>
  C9, as stated, fails where the query string follows the job id segment without a
  slash: the path segment after the marker segment is \<open>5417\<close>, the code stores
  \<open>5417?mobile=false\<close>. It fails as well where only the query string contains the
  marker: the path has no marker segment, and the code stores \<open>77\<close>.
\<close>

theorem job_id_query_counterexample:
  "job_id_from_url query_url = Inr (Some ''5417?mobile=false'')
   \<and> spec_job_id query_url = Some ''5417''
   \<and> job_id_from_url query_url \<noteq> Inr (spec_job_id query_url)
   \<and> job_id_from_url redirect_url = Inr (Some ''77'')
   \<and> spec_job_id redirect_url = None"
  by (simp add: job_id_from_url_def spec_job_id_def url_path_def query_url_def redirect_url_def
      split_def index_def)

text \<open>
  C9, amended. For every URL the job id lines raise nothing. A URL that does not contain
  the text \<open>/jobs/\<close> leaves \<open>job_id\<close> as it is, \<open>None\<close>. Otherwise the job id is the text
  that follows the first \<open>/jobs/\<close> of the URL, up to the next \<open>/\<close> or the end of the URL;
  the URL of the source's \<open>main\<close> yields \<open>5417\<close>. What the lines assign is what the
  returned record holds under \<open>job_id\<close>.
\<close>

theorem job_id_after_marker:
  "(\<exists>r. job_id_from_url url = Inr r)
   \<and> (\<not> py_in ''/jobs/'' url \<longrightarrow> job_id_from_url url = Inr None)
   \<and> (\<not> py_in ''/jobs/'' (pre @ ''/jobs'') \<and> CHR ''/'' \<notin> set seg
        \<and> (rest = [] \<or> hd rest = CHR ''/'')
      \<longrightarrow> job_id_from_url (pre @ ''/jobs/'' @ seg @ rest) = Inr (Some seg))
   \<and> job_id_from_url main_url = Inr (Some ''5417'')
   \<and> (job_id_from_url url = Inr r \<and> scrape_icims_job pg url = Inr (Some job_data)
      \<longrightarrow> map_of job_data ''job_id'' = Some (of_opt r))"
proof (intro conjI impI)
  show "\<exists>r. job_id_from_url url = Inr r" by (rule job_id_no_exception)
next
  assume "\<not> py_in ''/jobs/'' url"
  then show "job_id_from_url url = Inr None" by (simp add: job_id_from_url_def)
next
  assume "\<not> py_in ''/jobs/'' (pre @ ''/jobs'') \<and> CHR ''/'' \<notin> set seg
        \<and> (rest = [] \<or> hd rest = CHR ''/'')"
  then show "job_id_from_url (pre @ ''/jobs/'' @ seg @ rest) = Inr (Some seg)"
    by (intro job_id_segment) simp_all
next
  show "job_id_from_url main_url = Inr (Some ''5417'')" by (rule main_url_job_id)
next
  assume a: "job_id_from_url url = Inr r \<and> scrape_icims_job pg url = Inr (Some job_data)"
  then have "extract_job_details pg url = Inr job_data"
    by (auto simp: scrape_icims_job_def scrape_with_driver_def Let_def
        split: option.splits sum.splits)
  with a show "map_of job_data ''job_id'' = Some (of_opt r)"
    by (intro job_details_job_id) simp_all
qed


theorem job_id_after_marker_witness:
  "job_id_from_url plain_url = Inr None
   \<and> job_id_from_url (''https://careers-aeieng.icims.com'' @ ''/jobs/'' @ ''5417'' @
        ''/engineering-data-analyst/job?mobile=false'') = Inr (Some ''5417'')
   \<and> (\<exists>job_data. scrape_icims_job posting_page posting_url = Inr (Some job_data)
        \<and> map_of job_data ''job_id'' = Some (JStr ''5417''))"
proof -
  have "\<not> py_in ''/jobs/'' plain_url"
    by (simp add: plain_url_def)
  then have one: "job_id_from_url plain_url = Inr None"
    using job_id_after_marker [where url = plain_url] by blast
  have "\<not> py_in ''/jobs/'' (''https://careers-aeieng.icims.com'' @ ''/jobs'')
      \<and> CHR ''/'' \<notin> set ''5417''
      \<and> (''/engineering-data-analyst/job?mobile=false'' = []
         \<or> hd ''/engineering-data-analyst/job?mobile=false'' = CHR ''/'')"
    by simp
  then have two: "job_id_from_url (''https://careers-aeieng.icims.com'' @ ''/jobs/'' @ ''5417'' @
        ''/engineering-data-analyst/job?mobile=false'') = Inr (Some ''5417'')"
    using job_id_after_marker [where pre = "''https://careers-aeieng.icims.com''"
        and seg = "''5417''" and rest = "''/engineering-data-analyst/job?mobile=false''"]
    by blast
  obtain job_data where run: "scrape_icims_job posting_page posting_url = Inr (Some job_data)"
    using posting_page_run by blast
  then have "job_id_from_url posting_url = Inr (Some ''5417'')
      \<and> scrape_icims_job posting_page posting_url = Inr (Some job_data)"
    by (simp add: posting_url_job_id)
  then have "map_of job_data ''job_id'' = Some (of_opt (Some ''5417''))"
    using job_id_after_marker [where url = posting_url and r = "Some ''5417''"
        and pg = posting_page and job_data = job_data]
    by blast
  then have "map_of job_data ''job_id'' = Some (JStr ''5417'')"
    by (simp add: of_opt_def)
  with run have three: "\<exists>job_data. scrape_icims_job posting_page posting_url = Inr (Some job_data)
        \<and> map_of job_data ''job_id'' = Some (JStr ''5417'')"
    by blast
  from one two three show ?thesis by blast
qed


subsection \<open>Fields of the accepted block\<close>

lemma json_ld_loop_skip:
  "\<forall>s\<in>set pre. block_skipped ld s \<Longrightarrow>
   extract_json_ld_loop ld str (pre @ scripts) sd = extract_json_ld_loop ld str scripts sd"
  by (induction pre) (auto simp: block_skipped_def split: sum.splits json.splits)

lemma json_ld_loop_accept:
  "json_loads ld (tag_string script) = Inr (JDict data) \<Longrightarrow>
   dict_get data ''@type'' JNull = JStr ''JobPosting'' \<Longrightarrow>
   extract_json_ld_loop ld str (script # scripts) sd = job_posting_fields str data sd"
  by simp

lemma job_posting_fields_objects:
  assumes "dict_get data ''hiringOrganization'' (JDict []) = JDict org"
    and "dict_get data ''jobLocation'' (JDict []) = JDict loc"
    and "dict_get loc ''address'' (JDict []) = JDict address"
  shows "job_posting_fields str data [] =
     ([(''title'', dict_get data ''title'' JNull),
       (''company'', dict_get org ''name'' JNull),
       (''description'', dict_get data ''description'' JNull),
       (''posted_date'', dict_get data ''datePosted'' JNull),
       (''employment_type'', dict_get data ''employmentType'' JNull),
       (''location'',
          JStr (strip_chars '', ''
            (py_str str (dict_get address ''addressLocality'' (JStr [])) @ '', '' @
             py_str str (dict_get address ''addressRegion'' (JStr [])))))]
      @ (if truthy (dict_get data ''baseSalary'' (JDict []))
         then [(''salary'', JStr (py_str str (dict_get data ''baseSalary'' (JDict []))))]
         else []), None)"
  using assms
  by (simp add: job_posting_fields_def job_posting_location_def attr_get_def Let_def)


lemma strip_chars_kept:
  assumes "s \<noteq> []" and "hd s \<notin> set chars" and "last s \<notin> set chars"
  shows "strip_chars chars s = s"
proof -
  have "dropWhile (\<lambda>c. c \<in> set chars) s = s"
    using assms(1,2) by (cases s) auto
  moreover have "dropWhile (\<lambda>c. c \<in> set chars) (rev s) = rev s"
    using assms(1,3) by (cases "rev s") (auto simp: hd_rev [symmetric] dest: arg_cong [where f = hd])
  ultimately show ?thesis by (simp add: strip_chars_def)
qed

lemma strip_chars_trailing:
  assumes "s \<noteq> []" and "hd s \<notin> set chars" and "last s \<notin> set chars" and "set t \<subseteq> set chars"
  shows "strip_chars chars (s @ t) = s"
proof -
  have "dropWhile (\<lambda>c. c \<in> set chars) (s @ t) = s @ t"
    using assms(1,2) by (cases s) auto
  moreover have "dropWhile (\<lambda>c. c \<in> set chars) (rev t @ rev s) = rev s"
  proof -
    have "dropWhile (\<lambda>c. c \<in> set chars) (rev t @ rev s) =
          dropWhile (\<lambda>c. c \<in> set chars) (rev s)"
      using assms(4) by (intro dropWhile_append2) auto
    also have "\<dots> = rev s"
      using assms(1,3) by (cases "rev s") (auto simp: hd_rev [symmetric] dest: arg_cong [where f = hd])
    finally show ?thesis .
  qed
  ultimately show ?thesis by (simp add: strip_chars_def)
qed

lemma strip_chars_leading:
  assumes "s \<noteq> []" and "hd s \<notin> set chars" and "last s \<notin> set chars" and "set t \<subseteq> set chars"
  shows "strip_chars chars (t @ s) = s"
proof -
  have "dropWhile (\<lambda>c. c \<in> set chars) (t @ s) = dropWhile (\<lambda>c. c \<in> set chars) s"
    using assms(4) by (intro dropWhile_append2) auto
  also have "\<dots> = s"
    using assms(1,2) by (cases s) auto
  finally have "dropWhile (\<lambda>c. c \<in> set chars) (t @ s) = s" .
  moreover have "dropWhile (\<lambda>c. c \<in> set chars) (rev s) = rev s"
    using assms(1,3) by (cases "rev s") (auto simp: hd_rev [symmetric] dest: arg_cong [where f = hd])
  ultimately show ?thesis by (simp add: strip_chars_def)
qed


text \<open>
  C8, as stated, fails where the city is empty: the specification's composition strips
  only a trailing \<open>", "\<close> and leaves \<open>", TX"\<close>, the code strips commas and spaces at both
  ends and stores \<open>"TX"\<close>.
\<close>

theorem location_separator_counterexample:
  "map_of (extract_json_ld table_loads example_str [ld_script (Some region_text)]) ''location'' =
     Some (JStr ''TX'')
   \<and> spec_location [] ''TX'' = '', TX''
   \<and> map_of (extract_json_ld table_loads example_str [ld_script (Some region_text)]) ''location'' \<noteq>
     Some (JStr (spec_location [] ''TX''))"
  by (simp add: extract_json_ld_def find_all_def ld_script_def json_loads_def table_loads_def
      region_data_def dict_get_def job_posting_fields_def job_posting_location_def attr_get_def
      strip_chars_def py_str_def spec_location_def suffix_def)

text \<open>
  C8, amended. From the first accepted job-posting block, when its organization
  sub-object, its job location and the address under it are objects or absent, the
  extractor derives exactly: the title; the company name from the name under the
  organization sub-object; the description; the posting date; the employment type; the
  location, composed as \<open>"{city}, {region}"\<close> from the address object with every leading
  and trailing comma and space stripped, so that an empty city or an empty region leaves
  the other part alone; and the salary, when a non-empty salary value is present,
  stringified as it is.
\<close>

theorem job_posting_derivation:
  "(find_all sp ''script'' ''application/ld+json'' = pre @ script # post
      \<and> (\<forall>s\<in>set pre. block_skipped ld s)
      \<and> json_loads ld (tag_string script) = Inr (JDict data)
      \<and> dict_get data ''@type'' JNull = JStr ''JobPosting''
      \<and> dict_get data ''hiringOrganization'' (JDict []) = JDict org
      \<and> dict_get data ''jobLocation'' (JDict []) = JDict loc
      \<and> dict_get loc ''address'' (JDict []) = JDict address
    \<longrightarrow> extract_json_ld ld str sp =
          [(''title'', dict_get data ''title'' JNull),
           (''company'', dict_get org ''name'' JNull),
           (''description'', dict_get data ''description'' JNull),
           (''posted_date'', dict_get data ''datePosted'' JNull),
           (''employment_type'', dict_get data ''employmentType'' JNull),
           (''location'',
              JStr (strip_chars '', ''
                (py_str str (dict_get address ''addressLocality'' (JStr [])) @ '', '' @
                 py_str str (dict_get address ''addressRegion'' (JStr [])))))]
          @ (if truthy (dict_get data ''baseSalary'' (JDict []))
             then [(''salary'', JStr (py_str str (dict_get data ''baseSalary'' (JDict []))))]
             else []))
   \<and> (city \<noteq> [] \<and> hd city \<notin> set '', '' \<and> last city \<notin> set '', ''
      \<longrightarrow> strip_chars '', '' (city @ '', '' @ []) = city)
   \<and> (region \<noteq> [] \<and> hd region \<notin> set '', '' \<and> last region \<notin> set '', ''
      \<longrightarrow> strip_chars '', '' ([] @ '', '' @ region) = region)
   \<and> (city \<noteq> [] \<and> hd city \<notin> set '', '' \<and> region \<noteq> [] \<and> last region \<notin> set '', ''
      \<longrightarrow> strip_chars '', '' (city @ '', '' @ region) = city @ '', '' @ region)
   \<and> strip_chars '', '' ([] @ '', '' @ []) = []"
proof (intro conjI impI)
  assume a: "find_all sp ''script'' ''application/ld+json'' = pre @ script # post
      \<and> (\<forall>s\<in>set pre. block_skipped ld s)
      \<and> json_loads ld (tag_string script) = Inr (JDict data)
      \<and> dict_get data ''@type'' JNull = JStr ''JobPosting''
      \<and> dict_get data ''hiringOrganization'' (JDict []) = JDict org
      \<and> dict_get data ''jobLocation'' (JDict []) = JDict loc
      \<and> dict_get loc ''address'' (JDict []) = JDict address"
  then have skipped: "\<forall>s\<in>set pre. block_skipped ld s"
    and parsed: "json_loads ld (tag_string script) = Inr (JDict data)"
    and type: "dict_get data ''@type'' JNull = JStr ''JobPosting''"
    and objects: "dict_get data ''hiringOrganization'' (JDict []) = JDict org"
      "dict_get data ''jobLocation'' (JDict []) = JDict loc"
      "dict_get loc ''address'' (JDict []) = JDict address"
    by simp_all
  have "extract_json_ld_loop ld str (pre @ script # post) [] =
        extract_json_ld_loop ld str (script # post) []"
    using skipped by (rule json_ld_loop_skip)
  also have "\<dots> = job_posting_fields str data []"
    using parsed type by (rule json_ld_loop_accept)
  finally show "extract_json_ld ld str sp =
          [(''title'', dict_get data ''title'' JNull),
           (''company'', dict_get org ''name'' JNull),
           (''description'', dict_get data ''description'' JNull),
           (''posted_date'', dict_get data ''datePosted'' JNull),
           (''employment_type'', dict_get data ''employmentType'' JNull),
           (''location'',
              JStr (strip_chars '', ''
                (py_str str (dict_get address ''addressLocality'' (JStr [])) @ '', '' @
                 py_str str (dict_get address ''addressRegion'' (JStr [])))))]
          @ (if truthy (dict_get data ''baseSalary'' (JDict []))
             then [(''salary'', JStr (py_str str (dict_get data ''baseSalary'' (JDict []))))]
             else [])"
    using a by (simp add: extract_json_ld_def job_posting_fields_objects [OF objects])
next
  assume "city \<noteq> [] \<and> hd city \<notin> set '', '' \<and> last city \<notin> set '', ''"
  then have "strip_chars '', '' (city @ '', '') = city"
    by (intro strip_chars_trailing) simp_all
  then show "strip_chars '', '' (city @ '', '' @ []) = city" by simp
next
  assume "region \<noteq> [] \<and> hd region \<notin> set '', '' \<and> last region \<notin> set '', ''"
  then have "strip_chars '', '' ('', '' @ region) = region"
    by (intro strip_chars_leading) simp_all
  then show "strip_chars '', '' ([] @ '', '' @ region) = region" by simp
next
  assume "city \<noteq> [] \<and> hd city \<notin> set '', '' \<and> region \<noteq> [] \<and> last region \<notin> set '', ''"
  then show "strip_chars '', '' (city @ '', '' @ region) = city @ '', '' @ region"
    by (intro strip_chars_kept) (simp_all add: hd_append)
next
  show "strip_chars '', '' ([] @ '', '' @ []) = []"
    by (simp add: strip_chars_def)
qed

theorem job_posting_derivation_witness:
  "extract_json_ld table_loads example_str [ld_script (Some ''{''), ld_script (Some full_text)] =
     [(''title'', JStr ''Data Analyst''), (''company'', JStr ''Acme Corp''),
      (''description'', JStr ''Analyse data.''), (''posted_date'', JStr ''2025-10-01''),
      (''employment_type'', JStr ''FULL_TIME''), (''location'', JStr ''Austin, TX''),
      (''salary'', JStr (example_str (JDict [(''value'', JInt 50000)])))]
   \<and> strip_chars '', '' (''Austin'' @ '', '' @ []) = ''Austin''
   \<and> strip_chars '', '' ([] @ '', '' @ ''TX'') = ''TX''
   \<and> strip_chars '', '' (''Austin'' @ '', '' @ ''TX'') = ''Austin, TX''"
proof -
  have "find_all [ld_script (Some ''{''), ld_script (Some full_text)]
          ''script'' ''application/ld+json'' =
        [ld_script (Some ''{'')] @ ld_script (Some full_text) # []
      \<and> (\<forall>s\<in>set [ld_script (Some ''{'')]. block_skipped table_loads s)
      \<and> json_loads table_loads (tag_string (ld_script (Some full_text))) = Inr (JDict full_data)
      \<and> dict_get full_data ''@type'' JNull = JStr ''JobPosting''
      \<and> dict_get full_data ''hiringOrganization'' (JDict []) = JDict [(''name'', JStr ''Acme Corp'')]
      \<and> dict_get full_data ''jobLocation'' (JDict []) =
          JDict [(''address'',
            JDict [(''addressLocality'', JStr ''Austin''), (''addressRegion'', JStr ''TX'')])]
      \<and> dict_get [(''address'',
            JDict [(''addressLocality'', JStr ''Austin''), (''addressRegion'', JStr ''TX'')])]
           ''address'' (JDict []) =
          JDict [(''addressLocality'', JStr ''Austin''), (''addressRegion'', JStr ''TX'')]"
    by (simp add: find_all_def ld_script_def block_skipped_def json_loads_def table_loads_def
        region_text_def full_text_def full_data_def dict_get_def)
  then have "extract_json_ld table_loads example_str
        [ld_script (Some ''{''), ld_script (Some full_text)] =
      [(''title'', dict_get full_data ''title'' JNull),
       (''company'', dict_get [(''name'', JStr ''Acme Corp'')] ''name'' JNull),
       (''description'', dict_get full_data ''description'' JNull),
       (''posted_date'', dict_get full_data ''datePosted'' JNull),
       (''employment_type'', dict_get full_data ''employmentType'' JNull),
       (''location'',
          JStr (strip_chars '', ''
            (py_str example_str (dict_get [(''addressLocality'', JStr ''Austin''),
                (''addressRegion'', JStr ''TX'')] ''addressLocality'' (JStr [])) @ '', '' @
             py_str example_str (dict_get [(''addressLocality'', JStr ''Austin''),
                (''addressRegion'', JStr ''TX'')] ''addressRegion'' (JStr [])))))]
      @ (if truthy (dict_get full_data ''baseSalary'' (JDict []))
         then [(''salary'', JStr (py_str example_str (dict_get full_data ''baseSalary'' (JDict []))))]
         else [])"
    using job_posting_derivation [where sp = "[ld_script (Some ''{''), ld_script (Some full_text)]"
        and pre = "[ld_script (Some ''{'')]" and script = "ld_script (Some full_text)"
        and post = "[]" and ld = table_loads and data = full_data and str = example_str
        and org = "[(''name'', JStr ''Acme Corp'')]"
        and loc = "[(''address'',
            JDict [(''addressLocality'', JStr ''Austin''), (''addressRegion'', JStr ''TX'')])]"
        and address = "[(''addressLocality'', JStr ''Austin''), (''addressRegion'', JStr ''TX'')]"]
    by blast
  then have one: "extract_json_ld table_loads example_str
        [ld_script (Some ''{''), ld_script (Some full_text)] =
     [(''title'', JStr ''Data Analyst''), (''company'', JStr ''Acme Corp''),
      (''description'', JStr ''Analyse data.''), (''posted_date'', JStr ''2025-10-01''),
      (''employment_type'', JStr ''FULL_TIME''), (''location'', JStr ''Austin, TX''),
      (''salary'', JStr (example_str (JDict [(''value'', JInt 50000)])))]"
    by (simp add: full_data_def dict_get_def py_str_def strip_chars_def)
  have c: "''Austin'' \<noteq> [] \<and> hd ''Austin'' \<notin> set '', '' \<and> last ''Austin'' \<notin> set '', ''"
    and r: "''TX'' \<noteq> [] \<and> hd ''TX'' \<notin> set '', '' \<and> last ''TX'' \<notin> set '', ''"
    and b: "''Austin'' \<noteq> [] \<and> hd ''Austin'' \<notin> set '', '' \<and> ''TX'' \<noteq> []
        \<and> last ''TX'' \<notin> set '', ''"
    by simp_all
  have two: "strip_chars '', '' (''Austin'' @ '', '' @ []) = ''Austin''"
    using c job_posting_derivation [where city = "''Austin''"] by blast
  have three: "strip_chars '', '' ([] @ '', '' @ ''TX'') = ''TX''"
    using r job_posting_derivation [where region = "''TX''"] by blast
  have "strip_chars '', '' (''Austin'' @ '', '' @ ''TX'') = ''Austin'' @ '', '' @ ''TX''"
    using b job_posting_derivation [where city = "''Austin''" and region = "''TX''"] by blast
  then have four: "strip_chars '', '' (''Austin'' @ '', '' @ ''TX'') = ''Austin, TX''"
    by simp
  from one two three four show ?thesis by blast
qed

end
